theory Spec2Isabelle
  imports Main
begin

section \<open>Values of the farm tracker\<close>

text \<open>
  The bot keeps every farm as a Python dictionary with the keys \<open>name\<close>, \<open>coords\<close>,
  \<open>total_output\<close>, \<open>runtime\<close>, \<open>regrow_time\<close>, \<open>next_ready\<close> and \<open>status\<close>, and it
  tests the dynamic type of a field before it uses it. A field is therefore a \<open>pyval\<close>,
  and a key that may be absent is a \<open>pyval option\<close>. Durations (\<open>timedelta\<close>) and instants
  are whole microseconds; a \<open>datetime\<close> is the instant it denotes (a naive one read as UTC,
  as the program does wherever it meets one) together with its UTC offset, \<open>None\<close> for a
  naive value. The bounded range of \<open>timedelta\<close> is modelled where the numbers of the
  snapshot file become durations (\<open>load_farms\<close>, which raises outside it); the bounded
  range of \<open>datetime\<close>, the overflow of later arithmetic on instants and durations, and
  JSON numbers with a fraction are not modelled.
\<close>

datatype datetime = Datetime (instant: int) (tzoff: "int option")

datatype pyval =
    PNone
  | PBool bool
  | PInt int
  | PStr string
  | PTimedelta int
  | PDatetime datetime

fun truthy :: "pyval \<Rightarrow> bool" where
  "truthy PNone = False"
| "truthy (PBool b) = b"
| "truthy (PInt n) = (n \<noteq> 0)"
| "truthy (PStr s) = (s \<noteq> [])"
| "truthy (PTimedelta d) = (d \<noteq> 0)"
| "truthy (PDatetime t) = True"

record farm =
  name :: string
  coords :: "pyval option"
  total_output :: "pyval option"
  runtime :: "pyval option"
  regrow_time :: "pyval option"
  next_ready :: "pyval option"
  status :: "pyval option"

definition STATUS_UNKNOWN :: string where
  "STATUS_UNKNOWN = ''Unknown''"

definition STATUS_FARMING :: string where
  "STATUS_FARMING = ''Currently being farmed''"

definition STATUS_READY :: string where
  "STATUS_READY = ''Ready to be farmed''"

text \<open>\<open>farm.get(k)\<close>: the value of a key, \<open>None\<close> when the key is absent.\<close>

definition py_get :: "pyval option \<Rightarrow> pyval" where
  "py_get v = (case v of None \<Rightarrow> PNone | Some x \<Rightarrow> x)"

text \<open>\<open>timedelta(seconds=n)\<close> and \<open>int(d.total_seconds())\<close>, which truncates towards zero.\<close>

definition seconds :: "int \<Rightarrow> int" where
  "seconds n = n * 1000000"

text \<open>
  A \<open>timedelta\<close> holds between \<open>-999999999\<close> and \<open>999999999\<close> whole days (and a rest below
  one day); \<open>timedelta(seconds=n)\<close> raises \<open>OverflowError\<close> when \<open>n\<close> seconds are outside.
\<close>

datatype py_error = OverflowError

definition timedelta_in_range :: "int \<Rightarrow> bool" where
  "timedelta_in_range n = (- 999999999 \<le> n div 86400 \<and> n div 86400 \<le> 999999999)"

definition total_seconds_int :: "int \<Rightarrow> int" where
  "total_seconds_int d = (if 0 \<le> d then d div 1000000 else - ((- d) div 1000000))"

section \<open>The snapshot file: \<open>load_farms\<close> and \<open>save_farms\<close>\<close>

text \<open>
  A snapshot is the document of \<open>farms.json\<close> once \<open>json.load\<close> has read it: the envelope
  with its three keys, each of which may be missing. \<open>farms_file\<close> is what \<open>load_farms\<close>
  finds on disk: no file, a file that is not JSON, the older bare list of farms, or an
  envelope. The two functions of the standard library that read and print a timestamp,
  \<open>datetime.fromisoformat\<close> and \<open>datetime.isoformat\<close>, are parameters. The conversion of a
  stored number into a \<open>timedelta\<close> is outside any \<open>try\<close>, so \<open>load_farms\<close> raises
  \<open>OverflowError\<close> (\<open>Inl\<close>) at the first farm with a duration out of range.
\<close>

record snapshot =
  snap_last_message_id :: "pyval option"
  snap_status_message_id :: "pyval option"
  snap_farms :: "farm list option"

datatype farms_file = NoFile | NotJson | BareList "farm list" | Envelope snapshot

definition load_next_ready :: "(string \<Rightarrow> datetime option) \<Rightarrow> pyval option \<Rightarrow> pyval option" where
  "load_next_ready fromisoformat v =
     (case v of
        None \<Rightarrow> None
      | Some x \<Rightarrow>
          if truthy x then
            (case x of
               PStr s \<Rightarrow> (case fromisoformat s of Some t \<Rightarrow> Some (PDatetime t) | None \<Rightarrow> Some PNone)
             | _ \<Rightarrow> Some PNone)
          else Some x)"

fun load_duration :: "pyval option \<Rightarrow> py_error + pyval option" where
  "load_duration (Some (PInt n)) =
     (if timedelta_in_range n then Inr (Some (PTimedelta (seconds n))) else Inl OverflowError)"
| "load_duration (Some (PBool b)) = Inr (Some (PTimedelta (seconds (if b then 1 else 0))))"
| "load_duration v = Inr v"

definition load_farm :: "(string \<Rightarrow> datetime option) \<Rightarrow> farm \<Rightarrow> py_error + farm" where
  "load_farm fromisoformat f =
     (case load_duration (runtime f) of
        Inl err \<Rightarrow> Inl err
      | Inr rt \<Rightarrow>
          (case load_duration (regrow_time f) of
             Inl err \<Rightarrow> Inl err
           | Inr rg \<Rightarrow>
               Inr (f\<lparr>next_ready := load_next_ready fromisoformat (next_ready f),
                      runtime := rt,
                      regrow_time := rg,
                      status := (case status f of None \<Rightarrow> Some (PStr STATUS_UNKNOWN)
                                 | Some v \<Rightarrow> Some v)\<rparr>)))"

text \<open>The loop over the farms of the file, which stops at the first farm that raises.\<close>

fun load_each :: "(string \<Rightarrow> datetime option) \<Rightarrow> farm list \<Rightarrow> py_error + farm list" where
  "load_each fromisoformat [] = Inr []"
| "load_each fromisoformat (f # fs) =
     (case load_farm fromisoformat f of
        Inl err \<Rightarrow> Inl err
      | Inr g \<Rightarrow>
          (case load_each fromisoformat fs of
             Inl err \<Rightarrow> Inl err
           | Inr gs \<Rightarrow> Inr (g # gs)))"

definition empty_snapshot :: snapshot where
  "empty_snapshot =
     \<lparr>snap_last_message_id = Some PNone, snap_status_message_id = Some PNone, snap_farms = Some []\<rparr>"

definition load_farms ::
  "(string \<Rightarrow> datetime option) \<Rightarrow> farms_file \<Rightarrow> py_error + snapshot" where
  "load_farms fromisoformat file =
     (case file of
        NoFile \<Rightarrow> Inr empty_snapshot
      | NotJson \<Rightarrow> Inr empty_snapshot
      | BareList fs \<Rightarrow>
          (case load_each fromisoformat fs of
             Inl err \<Rightarrow> Inl err
           | Inr gs \<Rightarrow>
               Inr \<lparr>snap_last_message_id = Some PNone, snap_status_message_id = Some PNone,
                    snap_farms = Some gs\<rparr>)
      | Envelope d \<Rightarrow>
          (case snap_farms d of
             None \<Rightarrow> Inr d
           | Some fs \<Rightarrow>
               (case load_each fromisoformat fs of
                  Inl err \<Rightarrow> Inl err
                | Inr gs \<Rightarrow> Inr (d\<lparr>snap_farms := Some gs\<rparr>))))"

fun save_next_ready :: "(datetime \<Rightarrow> string) \<Rightarrow> pyval option \<Rightarrow> pyval option" where
  "save_next_ready isoformat (Some (PDatetime t)) = Some (PStr (isoformat t))"
| "save_next_ready isoformat v = v"

fun save_duration :: "pyval option \<Rightarrow> pyval option" where
  "save_duration (Some (PTimedelta d)) = Some (PInt (total_seconds_int d))"
| "save_duration v = v"

definition save_farm :: "(datetime \<Rightarrow> string) \<Rightarrow> farm \<Rightarrow> farm" where
  "save_farm isoformat f =
     f\<lparr>next_ready := save_next_ready isoformat (next_ready f),
       runtime := save_duration (runtime f),
       regrow_time := save_duration (regrow_time f)\<rparr>"

text \<open>The document \<open>save_farms(data)\<close> writes to \<open>farms.json\<close>.\<close>

definition save_farms :: "(datetime \<Rightarrow> string) \<Rightarrow> snapshot \<Rightarrow> snapshot" where
  "save_farms isoformat d =
     \<lparr>snap_last_message_id = Some (py_get (snap_last_message_id d)),
      snap_status_message_id = Some (py_get (snap_status_message_id d)),
      snap_farms = Some (map (save_farm isoformat) (case snap_farms d of None \<Rightarrow> [] | Some fs \<Rightarrow> fs))\<rparr>"

text \<open>
  A snapshot without the ambiguities of the older formats: the envelope has its three
  keys, and every farm carries its status, its two durations as whole seconds that a
  \<open>timedelta\<close> can hold, and a \<open>next_ready\<close> that is either \<open>null\<close> or a timestamp in
  the format \<open>isoformat\<close> prints (a text \<open>fromisoformat\<close> reads and \<open>isoformat\<close> gives
  back).
\<close>

definition canonical_timestamp ::
  "(datetime \<Rightarrow> string) \<Rightarrow> (string \<Rightarrow> datetime option) \<Rightarrow> string \<Rightarrow> bool" where
  "canonical_timestamp isoformat fromisoformat s =
     (case fromisoformat s of None \<Rightarrow> False | Some t \<Rightarrow> isoformat t = s)"

fun canonical_next_ready ::
  "(datetime \<Rightarrow> string) \<Rightarrow> (string \<Rightarrow> datetime option) \<Rightarrow> pyval option \<Rightarrow> bool" where
  "canonical_next_ready isoformat fromisoformat (Some PNone) = True"
| "canonical_next_ready isoformat fromisoformat (Some (PStr s)) =
     canonical_timestamp isoformat fromisoformat s"
| "canonical_next_ready isoformat fromisoformat v = False"

fun whole_seconds :: "pyval option \<Rightarrow> bool" where
  "whole_seconds (Some (PInt n)) = timedelta_in_range n"
| "whole_seconds v = False"

definition canonical_farm ::
  "(datetime \<Rightarrow> string) \<Rightarrow> (string \<Rightarrow> datetime option) \<Rightarrow> farm \<Rightarrow> bool" where
  "canonical_farm isoformat fromisoformat f =
     (whole_seconds (runtime f) \<and> whole_seconds (regrow_time f) \<and>
      canonical_next_ready isoformat fromisoformat (next_ready f) \<and> status f \<noteq> None)"

definition canonical_snapshot ::
  "(datetime \<Rightarrow> string) \<Rightarrow> (string \<Rightarrow> datetime option) \<Rightarrow> snapshot \<Rightarrow> bool" where
  "canonical_snapshot isoformat fromisoformat d =
     (snap_last_message_id d \<noteq> None \<and> snap_status_message_id d \<noteq> None \<and>
      (case snap_farms d of
         None \<Rightarrow> False
       | Some fs \<Rightarrow> list_all (canonical_farm isoformat fromisoformat) fs))"

section \<open>Names and their normal forms\<close>

text \<open>
  \<open>str.strip\<close>, \<open>str.lower\<close>, \<open>re.sub(r"\s+", " ", s)\<close> and the substring test \<open>a in b\<close>
  on texts of ASCII characters. White space is what \<open>str.isspace\<close> accepts below 128.
\<close>

definition is_space :: "char \<Rightarrow> bool" where
  "is_space c = (let n = (of_char c :: nat) in (9 \<le> n \<and> n \<le> 13) \<or> (28 \<le> n \<and> n \<le> 32))"

definition strip :: "string \<Rightarrow> string" where
  "strip s = rev (dropWhile is_space (rev (dropWhile is_space s)))"

definition lower_char :: "char \<Rightarrow> char" where
  "lower_char c = (let n = (of_char c :: nat) in if 65 \<le> n \<and> n \<le> 90 then char_of (n + 32) else c)"

definition lower :: "string \<Rightarrow> string" where
  "lower s = map lower_char s"

text \<open>\<open>sub_spaces after s\<close>: every run of white space becomes one blank; \<open>after\<close> says
  that the character before \<open>s\<close> was white space.\<close>

primrec sub_spaces :: "bool \<Rightarrow> string \<Rightarrow> string" where
  "sub_spaces after [] = []"
| "sub_spaces after (c # cs) =
     (if is_space c then (if after then sub_spaces True cs else CHR '' '' # sub_spaces True cs)
      else c # sub_spaces False cs)"

fun py_in :: "string \<Rightarrow> string \<Rightarrow> bool" where
  "py_in a [] = (a = [])"
| "py_in a (c # cs) = (take (length a) (c # cs) = a \<or> py_in a cs)"

section \<open>The bot: registry, scheduled tasks, and what it sends\<close>

text \<open>
  A farm is a dictionary object that the list \<open>farms\<close>, the handlers and the scheduled
  coroutines share, so the state holds the objects in a store (\<open>heap\<close>, by address) and
  the registry \<open>farms\<close> as the list of their addresses. \<open>data["last_message_id"]\<close> and
  \<open>data["status_message_id"]\<close> are read with \<open>data.get\<close> only, so a missing key is the
  value \<open>None\<close>.

  An asyncio task is a coroutine that has not run yet (\<open>Created\<close>), one that sleeps until
  an instant (\<open>Sleeping\<close>), or one that is over (\<open>Ended\<close>, or \<open>Cancelled\<close> once
  \<open>cancel()\<close> was called on it before it ended). \<open>tasks\<close> lists every task the bot ever
  created, a task's identity being its position; \<open>scheduled_tasks\<close> is the dictionary
  \<open>_scheduled_tasks\<close> from a farm's name to a task.

  A handler runs as one step: what other coroutines do while a handler waits at an
  \<open>await\<close> is not modelled, nor is an exception raised by the chat platform. Everything
  a handler writes or sends is appended to \<open>outputs\<close> in the order of the calls:
  \<open>Saved\<close> is a call of \<open>save_farms\<close> with the document written, the other constructors
  are calls into the chat platform and \<open>print\<close>. A call into the chat platform is
  recorded when the handler makes it; whether the platform delivers it is not part of
  the state.
\<close>

datatype task_kind = FailsafeTask bool | NotifyTask

datatype task_state = Created | Sleeping int | Ended | Cancelled

record task =
  task_kind :: task_kind
  task_key :: string
  task_farm :: nat
  task_state :: task_state

datatype effect =
    Saved snapshot
  | Printed string
  | BoardEdited
  | BoardSent
  | BoardWarned
  | StartedEmbed string string string datetime
  | FinishedEmbed string string string datetime datetime
  | FailsafePing string datetime
  | ReadyPing string
  | Replied string

record bot =
  last_message_id :: pyval
  status_message_id :: pyval
  farms :: "nat list"
  heap :: "nat \<Rightarrow> farm"
  allocated :: nat
  scheduled_tasks :: "string \<Rightarrow> nat option"
  tasks :: "task list"
  outputs :: "effect list"

text \<open>
  What a handler reads from outside while it runs: the clock, whether the chat platform
  resolves the two channels, whether the status board message still exists and the id
  of a message the platform creates, and the two timestamp functions of the library.
\<close>

record env =
  now :: int
  bot_channel :: bool
  status_channel :: bool
  board_found :: bool
  new_message_id :: int
  isoformat :: "datetime \<Rightarrow> string"
  fromisoformat :: "string \<Rightarrow> datetime option"

record message =
  message_id :: int
  author_name :: string
  in_kira_channel :: bool
  created_at :: datetime
  kira_match :: "(string \<times> string \<times> string) option"

definition emit :: "effect \<Rightarrow> bot \<Rightarrow> bot" where
  "emit x s = s\<lparr>outputs := outputs s @ [x]\<rparr>"

definition data_of :: "bot \<Rightarrow> snapshot" where
  "data_of s =
     \<lparr>snap_last_message_id = Some (last_message_id s),
      snap_status_message_id = Some (status_message_id s),
      snap_farms = Some (map (heap s) (farms s))\<rparr>"

text \<open>\<open>save_farms(data)\<close> on the bot's globals.\<close>

definition persist :: "env \<Rightarrow> bot \<Rightarrow> bot" where
  "persist e s = emit (Saved (save_farms (isoformat e) (data_of s))) s"

definition update_farm :: "nat \<Rightarrow> (farm \<Rightarrow> farm) \<Rightarrow> bot \<Rightarrow> bot" where
  "update_farm r g s = s\<lparr>heap := (heap s)(r := g (heap s r))\<rparr>"

definition update_farms_embed :: "env \<Rightarrow> bot \<Rightarrow> bot" where
  "update_farms_embed e s =
     (if \<not> status_channel e then emit (Printed ''Status channel not found'') s
      else if truthy (status_message_id s) then
        (if board_found e then emit BoardEdited s
         else emit BoardWarned
                (persist e ((emit BoardSent s)\<lparr>status_message_id := PInt (new_message_id e)\<rparr>)))
      else persist e ((emit BoardSent s)\<lparr>status_message_id := PInt (new_message_id e)\<rparr>))"

subsection \<open>Tasks\<close>

definition task_over :: "task \<Rightarrow> bool" where
  "task_over t = (task_state t = Ended \<or> task_state t = Cancelled)"

text \<open>\<open>if old and not old.done(): old.cancel()\<close>\<close>

definition cancel_task :: "nat \<Rightarrow> bot \<Rightarrow> bot" where
  "cancel_task i s =
     (if i < length (tasks s) \<and> \<not> task_over (tasks s ! i)
      then s\<lparr>tasks := (tasks s)[i := (tasks s ! i)\<lparr>task_state := Cancelled\<rparr>]\<rparr>
      else s)"

text \<open>\<open>_scheduled_tasks[name] = asyncio.create_task(...)\<close>\<close>

definition create_task :: "task_kind \<Rightarrow> string \<Rightarrow> nat \<Rightarrow> bot \<Rightarrow> bot" where
  "create_task k nm r s =
     s\<lparr>tasks := tasks s @ [\<lparr>task_kind = k, task_key = nm, task_farm = r, task_state = Created\<rparr>],
       scheduled_tasks := (scheduled_tasks s)(nm := Some (length (tasks s)))\<rparr>"

definition schedule_task_for_farm :: "nat \<Rightarrow> bot \<Rightarrow> bot" where
  "schedule_task_for_farm r s =
     (let nm = name (heap s r);
          s1 = (case scheduled_tasks s nm of None \<Rightarrow> s | Some old \<Rightarrow> cancel_task old s)
      in if truthy (py_get (next_ready (heap s1 r))) then create_task NotifyTask nm r s1 else s1)"

text \<open>\<open>if task and not task.done(): task.cancel(); _scheduled_tasks.pop(name, None)\<close>\<close>

definition cancel_and_pop :: "string \<Rightarrow> bot \<Rightarrow> bot" where
  "cancel_and_pop nm s =
     (case scheduled_tasks s nm of
        None \<Rightarrow> s
      | Some old \<Rightarrow>
          if old < length (tasks s) \<and> \<not> task_over (tasks s ! old)
          then (cancel_task old s)\<lparr>scheduled_tasks := (scheduled_tasks s)(nm := None)\<rparr>
          else s)"

subsection \<open>Readiness\<close>

definition notify_farm_ready_plain :: "env \<Rightarrow> nat \<Rightarrow> bot \<Rightarrow> bot" where
  "notify_farm_ready_plain e r s =
     (if \<not> bot_channel e then emit (Printed ''Bot updates channel not found'') s
      else
        let s1 = update_farm r (\<lambda>f. f\<lparr>status := Some (PStr STATUS_READY), next_ready := Some PNone\<rparr>) s;
            s2 = update_farms_embed e (persist e s1)
        in emit (ReadyPing (name (heap s2 r))) s2)"

definition as_utc :: "datetime \<Rightarrow> datetime" where
  "as_utc t = (case tzoff t of None \<Rightarrow> Datetime (instant t) (Some 0) | Some z \<Rightarrow> t)"

text \<open>
  \<open>schedule_notification_for_farm\<close> up to its \<open>asyncio.sleep\<close>: the state the task is in
  afterwards, and the bot. A \<open>next_ready\<close> that is neither a text nor a \<open>datetime\<close> ends
  the task with the \<open>AttributeError\<close> of \<open>nr.tzinfo\<close>.
\<close>

definition sleep_or_notify :: "env \<Rightarrow> nat \<Rightarrow> datetime \<Rightarrow> bot \<Rightarrow> task_state \<times> bot" where
  "sleep_or_notify e r nr s =
     (if instant (as_utc nr) - now e \<le> 0 then (Ended, notify_farm_ready_plain e r s)
      else (Sleeping (instant (as_utc nr)), s))"

definition schedule_notification_for_farm :: "env \<Rightarrow> nat \<Rightarrow> bot \<Rightarrow> task_state \<times> bot" where
  "schedule_notification_for_farm e r s =
     (case py_get (next_ready (heap s r)) of
        PNone \<Rightarrow> (Ended, s)
      | PStr x \<Rightarrow>
          (case fromisoformat e x of
             None \<Rightarrow> (Ended, persist e (update_farm r (\<lambda>f. f\<lparr>next_ready := Some PNone\<rparr>) s))
           | Some nr \<Rightarrow> sleep_or_notify e r nr s)
      | PDatetime nr \<Rightarrow> sleep_or_notify e r nr s
      | _ \<Rightarrow> (Ended, s))"

subsection \<open>The failsafe\<close>

text \<open>
  \<open>failsafe_task\<close> after its sleep. \<open>b\<close> is \<open>bot_channel\<close> as the handler of the start
  message found it: the coroutine closes over it. \<open>FailsafePing\<close> is the call
  \<open>bot_channel.send\<close>; it is made after \<open>schedule_task_for_farm\<close> has called
  \<open>cancel()\<close> on the task in \<open>_scheduled_tasks\<close>, which is the running failsafe itself.
\<close>

definition failsafe_expired :: "env \<Rightarrow> bool \<Rightarrow> nat \<Rightarrow> bot \<Rightarrow> bot" where
  "failsafe_expired e b r s =
     (if py_get (next_ready (heap s r)) = PNone then
        (case regrow_time (heap s r) of
           Some (PTimedelta d) \<Rightarrow>
             let next_ready_dt = Datetime (now e + d) (Some 0);
                 s1 = update_farm r
                        (\<lambda>f. f\<lparr>next_ready := Some (PDatetime next_ready_dt),
                                status := Some (PStr STATUS_FARMING)\<rparr>) s;
                 s2 = update_farms_embed e (persist e s1);
                 s3 = schedule_task_for_farm r s2
             in if b then emit (FailsafePing (name (heap s3 r)) next_ready_dt) s3 else s3
         | _ \<Rightarrow> s)
      else s)"

text \<open>The first run of a task, up to its sleep, and its run after the sleep.\<close>

definition set_task_state :: "nat \<Rightarrow> task_state \<Rightarrow> bot \<Rightarrow> bot" where
  "set_task_state i st s = s\<lparr>tasks := (tasks s)[i := (tasks s ! i)\<lparr>task_state := st\<rparr>]\<rparr>"

definition end_task :: "nat \<Rightarrow> bot \<Rightarrow> bot" where
  "end_task i s = (if task_state (tasks s ! i) = Cancelled then s else set_task_state i Ended s)"

definition task_start :: "env \<Rightarrow> nat \<Rightarrow> bot \<Rightarrow> bot" where
  "task_start e i s =
     (if i < length (tasks s) \<and> task_state (tasks s ! i) = Created then
        (case task_kind (tasks s ! i) of
           FailsafeTask b \<Rightarrow>
             (case runtime (heap s (task_farm (tasks s ! i))) of
                Some (PTimedelta d) \<Rightarrow> set_task_state i (Sleeping (now e + 2 * d)) s
              | _ \<Rightarrow> set_task_state i Ended s)
         | NotifyTask \<Rightarrow>
             (case schedule_notification_for_farm e (task_farm (tasks s ! i)) s of
                (st, s1) \<Rightarrow> set_task_state i st s1))
      else s)"

definition task_wake :: "env \<Rightarrow> nat \<Rightarrow> bot \<Rightarrow> bot" where
  "task_wake e i s =
     (if i < length (tasks s) then
        (case task_state (tasks s ! i) of
           Sleeping t \<Rightarrow>
             if t \<le> now e then
               (case task_kind (tasks s ! i) of
                  FailsafeTask b \<Rightarrow> end_task i (failsafe_expired e b (task_farm (tasks s ! i)) s)
                | NotifyTask \<Rightarrow> end_task i (notify_farm_ready_plain e (task_farm (tasks s ! i)) s))
             else s
         | _ \<Rightarrow> s)
      else s)"

subsection \<open>Resolving a name\<close>

definition clean_name :: "farm \<Rightarrow> string" where
  "clean_name f = lower (strip (name f))"

definition find_farms_by_name_partial :: "bot \<Rightarrow> string \<Rightarrow> nat list" where
  "find_farms_by_name_partial s name_raw =
     (if name_raw = [] then []
      else
        let clean = sub_spaces False (lower (strip name_raw));
            exact = filter (\<lambda>r. clean_name (heap s r) = clean) (farms s)
        in if exact \<noteq> [] then exact
           else filter (\<lambda>r. py_in clean (clean_name (heap s r))) (farms s))"

definition get_farm_exact :: "bot \<Rightarrow> string \<Rightarrow> nat option" where
  "get_farm_exact s name_raw =
     (case find_farms_by_name_partial s name_raw of [] \<Rightarrow> None | r # rs \<Rightarrow> Some r)"

subsection \<open>Messages of the feed\<close>

text \<open>
  \<open>kira_match\<close> is the result of \<open>KIRA_REGEX.fullmatch\<close> on the message: the groups
  \<open>time\<close>, \<open>user\<close> and \<open>msg\<close>, or no match (the regular expression engine is not
  modelled). The handler makes the two durations of the farm \<open>timedelta\<close>s before it
  looks at the status text.
\<close>

fun as_timedelta :: "pyval option \<Rightarrow> int" where
  "as_timedelta (Some (PTimedelta d)) = d"
| "as_timedelta (Some (PInt n)) = seconds n"
| "as_timedelta (Some (PBool b)) = seconds (if b then 1 else 0)"
| "as_timedelta v = 0"

definition normalize_durations :: "farm \<Rightarrow> farm" where
  "normalize_durations f =
     f\<lparr>regrow_time := Some (PTimedelta (as_timedelta (regrow_time f))),
       runtime := Some (PTimedelta (as_timedelta (runtime f)))\<rparr>"

definition to_utc :: "datetime \<Rightarrow> datetime" where
  "to_utc t = Datetime (instant t) (Some 0)"

definition handle_start :: "env \<Rightarrow> string \<Rightarrow> string \<Rightarrow> datetime \<Rightarrow> nat \<Rightarrow> bot \<Rightarrow> bot" where
  "handle_start e time_str user created r s =
     (let s1 = update_farm r (\<lambda>f. f\<lparr>status := Some (PStr STATUS_FARMING), next_ready := Some PNone\<rparr>) s;
          s2 = update_farms_embed e (persist e s1);
          nm = name (heap s2 r);
          s3 = create_task (FailsafeTask (bot_channel e)) nm r (cancel_and_pop nm s2)
      in if bot_channel e then emit (StartedEmbed nm user time_str created) s3 else s3)"

definition handle_finish :: "env \<Rightarrow> string \<Rightarrow> string \<Rightarrow> datetime \<Rightarrow> nat \<Rightarrow> bot \<Rightarrow> bot" where
  "handle_finish e time_str user created r s =
     (let next_ready_dt = Datetime (instant created + as_timedelta (regrow_time (heap s r))) (tzoff created);
          s1 = update_farm r
                 (\<lambda>f. f\<lparr>next_ready := Some (PDatetime next_ready_dt),
                         status := Some (PStr STATUS_FARMING)\<rparr>) s;
          s2 = schedule_task_for_farm r (update_farms_embed e (persist e s1))
      in if bot_channel e
         then emit (FinishedEmbed (name (heap s2 r)) user time_str created next_ready_dt) s2
         else s2)"

text \<open>\<open>msg.split("|", 1)\<close>, both parts stripped, the second in lower case.\<close>

definition farm_name_part :: "string \<Rightarrow> string" where
  "farm_name_part msg = strip (takeWhile (\<lambda>c. c \<noteq> CHR ''|'') msg)"

definition status_text :: "string \<Rightarrow> string" where
  "status_text msg = lower (strip (tl (dropWhile (\<lambda>c. c \<noteq> CHR ''|'') msg)))"

definition apply_status :: "env \<Rightarrow> message \<Rightarrow> string \<Rightarrow> string \<Rightarrow> string \<Rightarrow> nat \<Rightarrow> bot \<Rightarrow> bot" where
  "apply_status e m time_str user msg r s =
     (let created = to_utc (created_at m);
          s0 = update_farm r normalize_durations s;
          s1 = (if py_in ''being started'' (status_text msg)
                then handle_start e time_str user created r s0
                else if py_in ''has finished'' (status_text msg)
                then handle_finish e time_str user created r s0
                else s0)
      in persist e (s1\<lparr>last_message_id := PInt (message_id m)\<rparr>))"

definition process_kira_message :: "env \<Rightarrow> message \<Rightarrow> bot \<Rightarrow> bot" where
  "process_kira_message e m s =
     (case kira_match m of
        None \<Rightarrow> s
      | Some (time_str, user, msg) \<Rightarrow>
          if CHR ''|'' \<notin> set msg then s
          else
            (case get_farm_exact s (farm_name_part msg) of
               None \<Rightarrow> emit (Printed (''Unknown farm in Kira message: '' @ farm_name_part msg)) s
             | Some r \<Rightarrow> apply_status e m time_str user msg r s))"

subsection \<open>Commands\<close>

definition removefarm :: "env \<Rightarrow> string \<Rightarrow> bot \<Rightarrow> bot" where
  "removefarm e farm_name s =
     (let farm_name_str = lower (strip farm_name) in
      case filter (\<lambda>r. clean_name (heap s r) = farm_name_str) (farms s) of
        [] \<Rightarrow> emit (Replied (''Farm '' @ farm_name @ '' not found.'')) s
      | r # rs \<Rightarrow>
          let s1 = cancel_and_pop (name (heap s r)) s;
              s2 = s1\<lparr>farms := filter (\<lambda>x. clean_name (heap s1 x) \<noteq> farm_name_str) (farms s1)\<rparr>;
              s3 = update_farms_embed e (persist e s2)
          in emit (Replied (''Farm '' @ name (heap s r) @ '' removed.'')) s3)"

text \<open>
  The arguments of \<open>/addfarm\<close> and \<open>/editfarm\<close> arrive as the values the handler stores:
  texts already as given, and the two durations as the \<open>timedelta\<close> in microseconds
  that \<open>timedelta(minutes=...)\<close> and \<open>timedelta(hours=...)\<close> build.
\<close>

definition addfarm :: "env \<Rightarrow> string \<Rightarrow> string \<Rightarrow> string \<Rightarrow> int \<Rightarrow> int \<Rightarrow> bot \<Rightarrow> bot" where
  "addfarm e nm crd out rt rg s =
     (if list_ex (\<lambda>r. clean_name (heap s r) = lower (strip nm)) (farms s)
      then emit (Replied (''A farm named '' @ nm @ '' already exists.'')) s
      else
        let new_farm = \<lparr>name = strip nm, coords = Some (PStr (strip crd)),
                        total_output = Some (PStr (strip out)),
                        runtime = Some (PTimedelta rt), regrow_time = Some (PTimedelta rg),
                        next_ready = Some PNone, status = Some (PStr STATUS_UNKNOWN)\<rparr>;
            s1 = s\<lparr>heap := (heap s)(allocated s := new_farm),
                   farms := farms s @ [allocated s], allocated := Suc (allocated s)\<rparr>;
            s2 = update_farms_embed e (persist e s1)
        in emit (Replied (''Farm '' @ nm @ '' added.'')) s2)"

definition edit_fields ::
  "string option \<Rightarrow> string option \<Rightarrow> int option \<Rightarrow> int option \<Rightarrow> farm \<Rightarrow> farm" where
  "edit_fields crd out rt rg f =
     (let f1 = (case crd of None \<Rightarrow> f | Some c \<Rightarrow> f\<lparr>coords := Some (PStr (strip c))\<rparr>);
          f2 = (case out of None \<Rightarrow> f1 | Some c \<Rightarrow> f1\<lparr>total_output := Some (PStr (strip c))\<rparr>);
          f3 = (case rt of None \<Rightarrow> f2 | Some d \<Rightarrow> f2\<lparr>runtime := Some (PTimedelta d)\<rparr>)
      in (case rg of None \<Rightarrow> f3 | Some d \<Rightarrow> f3\<lparr>regrow_time := Some (PTimedelta d)\<rparr>))"

definition editfarm ::
  "env \<Rightarrow> string \<Rightarrow> string option \<Rightarrow> string option \<Rightarrow> int option \<Rightarrow> int option \<Rightarrow> bot \<Rightarrow> bot" where
  "editfarm e farm_name crd out rt rg s =
     (case get_farm_exact s farm_name of
        None \<Rightarrow> emit (Replied (''Farm '' @ farm_name @ '' not found.'')) s
      | Some r \<Rightarrow>
          let s1 = persist e (update_farm r (edit_fields crd out rt rg) s);
              s2 = update_farms_embed e (schedule_task_for_farm r s1)
          in emit (Replied (''Updated '' @ name (heap s2 r))) s2)"

subsection \<open>Start of the process\<close>

text \<open>
  The loop of \<open>on_ready\<close> over the registry (\<open>schedule existing farms\<close>), one farm at a
  time. \<open>now e\<close> is the clock as \<open>on_ready\<close> read it before the catch-up.
\<close>

definition parse_next_ready :: "env \<Rightarrow> farm \<Rightarrow> farm" where
  "parse_next_ready e f =
     (case py_get (next_ready f) of
        PStr x \<Rightarrow>
          f\<lparr>next_ready := Some (case fromisoformat e x of None \<Rightarrow> PNone | Some t \<Rightarrow> PDatetime t)\<rparr>
      | _ \<Rightarrow> f)"

definition reschedule_farm :: "env \<Rightarrow> nat \<Rightarrow> bot \<Rightarrow> bot" where
  "reschedule_farm e r s =
     (let s1 = update_farm r (parse_next_ready e) s in
      case py_get (next_ready (heap s1 r)) of
        PDatetime t \<Rightarrow>
          let s2 = update_farm r (\<lambda>f. f\<lparr>next_ready := Some (PDatetime (as_utc t))\<rparr>) s1 in
          if instant (as_utc t) \<le> now e
          then persist e (update_farm r
                 (\<lambda>f. f\<lparr>status := Some (PStr STATUS_READY), next_ready := Some PNone\<rparr>) s2)
          else schedule_task_for_farm r s2
      | _ \<Rightarrow> s1)"

definition schedule_existing_farms :: "env \<Rightarrow> bot \<Rightarrow> bot" where
  "schedule_existing_farms e s = fold (reschedule_farm e) (farms s) s"

definition from_intentgames :: "message \<Rightarrow> bool" where
  "from_intentgames m = (lower (author_name m) = ''intentgames'')"

text \<open>\<open>history\<close> is what the feed channel returns after the checkpoint, oldest first,
  or \<open>None\<close> when the channel does not resolve.\<close>

definition on_ready :: "env \<Rightarrow> message list option \<Rightarrow> bot \<Rightarrow> bot" where
  "on_ready e history s =
     (let s1 = (case history of
                  None \<Rightarrow> s
                | Some ms \<Rightarrow> fold (process_kira_message e) (filter from_intentgames ms) s)
      in update_farms_embed e (schedule_existing_farms e s1))"

definition on_message :: "env \<Rightarrow> message \<Rightarrow> bot \<Rightarrow> bot" where
  "on_message e m s =
     (if from_intentgames m \<and> in_kira_channel m then process_kira_message e m s else s)"

text \<open>
  The state after the module is loaded: the farms of the snapshot, or the two default
  farms (saved at once) when it has none; no task yet.
\<close>

definition default_farms :: "farm list" where
  "default_farms =
     [\<lparr>name = ''Farm_1'', coords = Some (PStr ''(123, 64, -456)''),
       total_output = Some (PStr ''50 ci wheat''),
       runtime = Some (PTimedelta (seconds 1800)), regrow_time = Some (PTimedelta (seconds 36)),
       next_ready = Some PNone, status = Some (PStr STATUS_UNKNOWN)\<rparr>,
      \<lparr>name = ''Surmadri Wheat Farm'', coords = Some (PStr ''(123, 64, -456)''),
       total_output = Some (PStr ''5 cs wheat''),
       runtime = Some (PTimedelta (seconds 900)), regrow_time = Some (PTimedelta (seconds 7200)),
       next_ready = Some PNone, status = Some (PStr STATUS_UNKNOWN)\<rparr>]"

definition bot_of :: "snapshot \<Rightarrow> farm list \<Rightarrow> bot" where
  "bot_of d fs =
     \<lparr>last_message_id = py_get (snap_last_message_id d),
      status_message_id = py_get (snap_status_message_id d),
      farms = [0 ..< length fs],
      heap = (\<lambda>r. if r < length fs then fs ! r else \<lparr>name = [], coords = None, total_output = None,
                runtime = None, regrow_time = None, next_ready = None, status = None\<rparr>),
      allocated = length fs,
      scheduled_tasks = (\<lambda>k. None),
      tasks = [],
      outputs = []\<rparr>"

definition initial_bot :: "env \<Rightarrow> farms_file \<Rightarrow> py_error + bot" where
  "initial_bot e file =
     (case load_farms (fromisoformat e) file of
        Inl err \<Rightarrow> Inl err
      | Inr d \<Rightarrow>
          (let fs = (case snap_farms d of None \<Rightarrow> [] | Some l \<Rightarrow> l)
           in Inr (if fs = [] then persist e (bot_of d default_farms) else bot_of d fs)))"

subsection \<open>Runs\<close>

datatype event =
    Message env message
  | TaskStart env nat
  | TaskWake env nat
  | RemoveFarm env string
  | EditFarm env string "string option" "string option" "int option" "int option"
  | AddFarm env string string string int int
  | Ready env "message list option"

fun step :: "event \<Rightarrow> bot \<Rightarrow> bot" where
  "step (Message e m) s = on_message e m s"
| "step (TaskStart e i) s = task_start e i s"
| "step (TaskWake e i) s = task_wake e i s"
| "step (RemoveFarm e n) s = removefarm e n s"
| "step (EditFarm e n crd out rt rg) s = editfarm e n crd out rt rg s"
| "step (AddFarm e n crd out rt rg) s = addfarm e n crd out rt rg s"
| "step (Ready e h) s = on_ready e h s"

definition run :: "event list \<Rightarrow> bot \<Rightarrow> bot" where
  "run evs s = fold step evs s"

text \<open>A task is armed while it can still run: it has not ended and was not cancelled.\<close>

definition armed :: "string \<Rightarrow> task \<Rightarrow> bool" where
  "armed nm t = (task_key t = nm \<and> \<not> task_over t)"

definition armed_timers :: "bot \<Rightarrow> string \<Rightarrow> nat" where
  "armed_timers s nm = length (filter (armed nm) (tasks s))"

section \<open>Example values\<close>

text \<open>
  Concrete values for evaluating the model: one timestamp as the library prints and
  reads it (2024-05-01 12:00 UTC, in microseconds since the epoch), two farms, a
  snapshot that holds them, and an environment in which both channels resolve.
\<close>

definition noon_text :: string where
  "noon_text = ''2024-05-01T12:00:00+00:00''"

definition noon :: int where
  "noon = 1714564800000000"

definition example_isoformat :: "datetime \<Rightarrow> string" where
  "example_isoformat t = noon_text"

definition example_fromisoformat :: "string \<Rightarrow> datetime option" where
  "example_fromisoformat x = (if x = noon_text then Some (Datetime noon (Some 0)) else None)"

definition wheat_json :: farm where
  "wheat_json =
     \<lparr>name = ''Wheat Farm'', coords = Some (PStr ''(1, 64, 3)''), total_output = Some (PStr ''5 cs wheat''),
      runtime = Some (PInt 1800), regrow_time = Some (PInt 7200),
      next_ready = Some (PStr noon_text), status = Some (PStr STATUS_FARMING)\<rparr>"

definition corn_json :: farm where
  "corn_json =
     \<lparr>name = ''Corn Farm'', coords = Some (PStr ''(9, 64, 9)''), total_output = Some (PStr ''2 cs corn''),
      runtime = Some (PInt 900), regrow_time = Some (PInt 3600),
      next_ready = Some PNone, status = Some (PStr STATUS_UNKNOWN)\<rparr>"

definition example_snapshot :: snapshot where
  "example_snapshot =
     \<lparr>snap_last_message_id = Some (PInt 77), snap_status_message_id = Some PNone,
      snap_farms = Some [wheat_json, corn_json]\<rparr>"

definition example_env :: "int \<Rightarrow> env" where
  "example_env t =
     \<lparr>now = t, bot_channel = True, status_channel = True, board_found = True,
      new_message_id = 500, isoformat = example_isoformat, fromisoformat = example_fromisoformat\<rparr>"

text \<open>The bot once the module has loaded \<open>example_snapshot\<close>; the load does not raise.\<close>

definition example_bot :: bot where
  "example_bot = projr (initial_bot (example_env noon) (Envelope example_snapshot))"

definition started_line :: message where
  "started_line =
     \<lparr>message_id = 100, author_name = ''IntentGames'', in_kira_channel = True,
      created_at = Datetime (noon + 5) None,
      kira_match = Some (''12:00:05'', ''Steve'', ''farm | is being started'')\<rparr>"

definition finished_line :: message where
  "finished_line =
     \<lparr>message_id = 101, author_name = ''IntentGames'', in_kira_channel = True,
      created_at = Datetime (noon + seconds 1500) (Some 0),
      kira_match = Some (''12:25:00'', ''Steve'', ''Wheat Farm | has finished farming'')\<rparr>"

section \<open>Reading the outputs\<close>

text \<open>
  \<open>new_outputs s s'\<close> is what a step from \<open>s\<close> to \<open>s'\<close> wrote and sent. A call into the
  chat platform is \<open>observable\<close> from outside; a save and a diagnostic are not.
  \<open>saved_before_sent post xs\<close> reads the outputs \<open>xs\<close> of a step in order: the farms
  \<open>post\<close> are written to the file before the first observable call.
  \<open>is_ping\<close> picks the two notifications that mention the role: the failsafe notice and
  the ready notice.
\<close>

definition new_outputs :: "bot \<Rightarrow> bot \<Rightarrow> effect list" where
  "new_outputs s s' = drop (length (outputs s)) (outputs s')"

fun observable :: "effect \<Rightarrow> bool" where
  "observable (Saved d) = False"
| "observable (Printed x) = False"
| "observable x = True"

fun saved_before_sent :: "farm list \<Rightarrow> effect list \<Rightarrow> bool" where
  "saved_before_sent post [] = True"
| "saved_before_sent post (Saved d # xs) = (snap_farms d = Some post)"
| "saved_before_sent post (x # xs) = (\<not> observable x \<and> saved_before_sent post xs)"

fun is_ping :: "effect \<Rightarrow> bool" where
  "is_ping (FailsafePing n t) = True"
| "is_ping (ReadyPing n) = True"
| "is_ping x = False"

section \<open>Example states\<close>

text \<open>
  \<open>offline_env\<close>: the bot updates channel does not resolve. \<open>sleeping_bot\<close>: the process has
  started ten microseconds before the wheat farm is ready, and its readiness task
  sleeps. \<open>started_bot\<close>: the start line has been handled and the failsafe sleeps;
  \<open>unheard_bot\<close> is the same with the channel unresolved while the start line was
  handled. \<open>superseded_bot\<close>: \<open>started_bot\<close> with \<open>next_ready\<close> set by hand while the
  failsafe still sleeps.
\<close>

definition offline_env :: "int \<Rightarrow> env" where
  "offline_env t = (example_env t)\<lparr>bot_channel := False\<rparr>"

definition sleeping_bot :: bot where
  "sleeping_bot =
     task_start (example_env (noon - 10)) 0 (schedule_existing_farms (example_env (noon - 10)) example_bot)"




text \<open>
  \<open>colliding_snapshot\<close>: a file whose two farms have names that differ in case only, both
  with a readiness in the future of the start. \<open>colliding_bot\<close>: the process has started
  from it ten microseconds before that readiness, both readiness tasks sleep, and
  \<open>removefarm\<close> has been given the first name.
\<close>

definition colliding_snapshot :: snapshot where
  "colliding_snapshot =
     \<lparr>snap_last_message_id = Some (PInt 77), snap_status_message_id = Some PNone,
      snap_farms = Some [wheat_json, wheat_json\<lparr>name := ''wheat farm''\<rparr>]\<rparr>"

definition colliding_start :: bot where
  "colliding_start =
     task_start (example_env (noon - 10)) 1
       (task_start (example_env (noon - 10)) 0
          (schedule_existing_farms (example_env (noon - 10))
             (projr (initial_bot (example_env (noon - 10)) (Envelope colliding_snapshot)))))"

definition colliding_bot :: bot where
  "colliding_bot = removefarm (example_env (noon - 5)) ''Wheat Farm'' colliding_start"

section \<open>The scheduler's invariant\<close>

text \<open>
  \<open>scheduler_ok\<close>: every task that is not over is the task that \<open>_scheduled_tasks\<close> holds
  under its key, and every entry of \<open>_scheduled_tasks\<close> is a task with that key.
  \<open>unarmed nm s\<close>: no task with the key \<open>nm\<close> can still run.
\<close>

definition scheduler_ok :: "bot \<Rightarrow> bool" where
  "scheduler_ok s =
     ((\<forall>i < length (tasks s). \<not> task_over (tasks s ! i) \<longrightarrow>
          scheduled_tasks s (task_key (tasks s ! i)) = Some i) \<and>
      (\<forall>k i. scheduled_tasks s k = Some i \<longrightarrow> i < length (tasks s) \<and> task_key (tasks s ! i) = k))"

definition unarmed :: "string \<Rightarrow> bot \<Rightarrow> bool" where
  "unarmed nm s = (\<forall>i < length (tasks s). task_key (tasks s ! i) = nm \<longrightarrow> task_over (tasks s ! i))"

text \<open>A run that starts, finishes and edits the wheat farm.\<close>

definition example_events :: "event list" where
  "example_events =
     [Message (example_env (noon + 7)) started_line,
      TaskStart (example_env (noon + 7)) 0,
      Message (example_env (noon + seconds 1600)) finished_line,
      TaskStart (example_env (noon + seconds 1600)) 1,
      EditFarm (example_env (noon + seconds 1700)) ''wheat farm'' None None (Some (seconds 1200)) None]"

section \<open>What the loop over the registry leaves alone\<close>

text \<open>
  \<open>loop_frame nm r s s'\<close>: from \<open>s\<close> to \<open>s'\<close> the farm at \<open>r\<close>, every name, the registry,
  the entry of \<open>_scheduled_tasks\<close> for \<open>nm\<close> and the tasks with the key \<open>nm\<close> are
  unchanged, no task has gone, and the outputs have grown by none of the two
  notifications.
\<close>

definition loop_frame :: "string \<Rightarrow> nat \<Rightarrow> bot \<Rightarrow> bot \<Rightarrow> bool" where
  "loop_frame nm r s s' =
     (heap s' r = heap s r \<and> (\<forall>y. name (heap s' y) = name (heap s y)) \<and> farms s' = farms s \<and>
      scheduled_tasks s' nm = scheduled_tasks s nm \<and>
      (\<forall>i < length (tasks s). task_key (tasks s ! i) = nm \<longrightarrow> tasks s' ! i = tasks s ! i) \<and>
      length (tasks s) \<le> length (tasks s') \<and>
      (\<exists>ws. outputs s' = outputs s @ ws \<and> filter is_ping ws = []))"

section \<open>The names of the registry\<close>

text \<open>
  \<open>file_farms\<close>: the farms a snapshot file holds. \<open>names_unique\<close>: no two farms of the
  registry have the same name after stripping and lower-casing (the comparison of
  \<open>addfarm\<close> and \<open>removefarm\<close>), and every farm of the registry is an allocated object.
  \<open>same_registry s s'\<close>: from \<open>s\<close> to \<open>s'\<close> the registry and every name are unchanged.
\<close>

definition file_farms :: "farms_file \<Rightarrow> farm list" where
  "file_farms file =
     (case file of
        BareList fs \<Rightarrow> fs
      | Envelope d \<Rightarrow> (case snap_farms d of None \<Rightarrow> [] | Some fs \<Rightarrow> fs)
      | _ \<Rightarrow> [])"

definition same_registry :: "bot \<Rightarrow> bot \<Rightarrow> bool" where
  "same_registry s s' =
     (farms s' = farms s \<and> allocated s' = allocated s \<and> (\<forall>y. name (heap s' y) = name (heap s y)))"

definition names_unique :: "bot \<Rightarrow> bool" where
  "names_unique s =
     (distinct (map (\<lambda>x. clean_name (heap s x)) (farms s)) \<and> (\<forall>r \<in> set (farms s). r < allocated s))"

section \<open>Round trip of the snapshot\<close>

lemma total_seconds_int_seconds: "total_seconds_int (seconds n) = n"
proof -
  have "(- n * 1000000) div 1000000 = - n"
    by (rule nonzero_mult_div_cancel_right) simp
  then have "(- (n * 1000000)) div 1000000 = - n"
    by simp
  then show ?thesis
    unfolding total_seconds_int_def seconds_def by simp
qed

lemma save_load_duration:
  "whole_seconds v \<Longrightarrow> \<exists>w. load_duration v = Inr w \<and> save_duration w = v"
  by (cases v rule: whole_seconds.cases) (simp_all add: total_seconds_int_seconds)

lemma load_duration_out_of_range:
  "\<not> timedelta_in_range n \<Longrightarrow> load_duration (Some (PInt n)) = Inl OverflowError"
  by simp

lemma save_load_next_ready:
  "canonical_next_ready pr rd v \<Longrightarrow>
   save_next_ready pr (load_next_ready rd v) = v"
  by (cases "(pr, rd, v)" rule: canonical_next_ready.cases)
     (auto simp: load_next_ready_def canonical_timestamp_def split: option.splits)

lemma save_load_farm:
  assumes "canonical_farm pr rd f"
  shows "\<exists>g. load_farm rd f = Inr g \<and> save_farm pr g = f"
proof -
  from assms obtain rt where rt: "load_duration (runtime f) = Inr rt" "save_duration rt = runtime f"
    using save_load_duration [of "runtime f"] by (auto simp: canonical_farm_def)
  from assms obtain rg where rg: "load_duration (regrow_time f) = Inr rg"
      "save_duration rg = regrow_time f"
    using save_load_duration [of "regrow_time f"] by (auto simp: canonical_farm_def)
  from assms have nr: "save_next_ready pr (load_next_ready rd (next_ready f)) = next_ready f"
    by (simp add: canonical_farm_def save_load_next_ready)
  from assms obtain v where v: "status f = Some v"
    by (auto simp: canonical_farm_def)
  show ?thesis
    using rt rg nr v by (simp add: load_farm_def save_farm_def)
qed

lemma save_load_farm_list:
  "list_all (canonical_farm pr rd) fs \<Longrightarrow>
   \<exists>gs. load_each rd fs = Inr gs \<and> map (save_farm pr) gs = fs"
proof (induction fs)
  case Nil
  then show ?case by simp
next
  case (Cons f fs)
  from Cons.prems obtain g where g: "load_farm rd f = Inr g" "save_farm pr g = f"
    using save_load_farm [of pr rd f] by auto
  from Cons obtain gs where gs: "load_each rd fs = Inr gs" "map (save_farm pr) gs = fs"
    by auto
  show ?case
    using g gs by simp
qed

section \<open>The snapshot is a fixed point of load and save\<close>

text \<open>
  C9. For a snapshot without the ambiguities of the older formats (the envelope with its
  three keys, every farm with its status, the durations as whole seconds within the range
  of a \<open>timedelta\<close>, \<open>next_ready\<close> either \<open>null\<close> or a timestamp in the format the library
  prints), \<open>load_farms\<close> returns without raising, and saving what it returns writes the
  document that was loaded. (A duration outside the range is not covered: there
  \<open>load_farms\<close> raises \<open>OverflowError\<close>, see \<open>load_farms_out_of_range\<close>.)
\<close>

theorem save_load_fixed_point:
  "canonical_snapshot pr rd d \<Longrightarrow>
   \<exists>l. load_farms rd (Envelope d) = Inr l \<and> save_farms pr l = d"
proof -
  assume c: "canonical_snapshot pr rd d"
  then obtain l b fs where d: "snap_last_message_id d = Some l" "snap_status_message_id d = Some b"
      "snap_farms d = Some fs" and fs: "list_all (canonical_farm pr rd) fs"
    by (auto simp: canonical_snapshot_def split: option.splits)
  from fs obtain gs where gs: "load_each rd fs = Inr gs" "map (save_farm pr) gs = fs"
    using save_load_farm_list [of pr rd fs] by auto
  with d show ?thesis
    by (cases d) (simp add: save_farms_def load_farms_def py_get_def)
qed

theorem save_load_fixed_point_witness:
  "canonical_snapshot example_isoformat example_fromisoformat example_snapshot \<and>
   load_farms example_fromisoformat (Envelope example_snapshot) \<noteq> Inr example_snapshot \<and>
   (\<exists>l. load_farms example_fromisoformat (Envelope example_snapshot) = Inr l \<and>
        save_farms example_isoformat l = example_snapshot)"
proof -
  have h: "canonical_snapshot example_isoformat example_fromisoformat example_snapshot"
    by (simp add: canonical_snapshot_def canonical_farm_def canonical_timestamp_def
        timedelta_in_range_def example_snapshot_def wheat_json_def corn_json_def
        example_isoformat_def example_fromisoformat_def)
  have "load_farms example_fromisoformat (Envelope example_snapshot) \<noteq> Inr example_snapshot"
    by code_simp
  with save_load_fixed_point [OF h] h show ?thesis
    by simp
qed

text \<open>
  The bound on the durations is needed: with a runtime of \<open>86400000000000\<close> seconds, one
  more than a \<open>timedelta\<close> holds, \<open>load_farms\<close> raises and the process does not start.
\<close>

lemma load_farms_out_of_range:
  "load_farms example_fromisoformat
     (Envelope (example_snapshot\<lparr>snap_farms :=
        Some [wheat_json\<lparr>runtime := Some (PInt 86400000000000)\<rparr>, corn_json]\<rparr>)) =
     Inl OverflowError \<and>
   isl (initial_bot (example_env noon)
     (Envelope (example_snapshot\<lparr>snap_farms :=
        Some [wheat_json\<lparr>runtime := Some (PInt 86400000000000)\<rparr>, corn_json]\<rparr>))) \<and>
   load_duration (Some (PInt 86399999999999)) = Inr (Some (PTimedelta (seconds 86399999999999))) \<and>
   load_duration (Some (PInt (- 86399999913600))) =
     Inr (Some (PTimedelta (seconds (- 86399999913600)))) \<and>
   load_duration (Some (PInt (- 86399999913601))) = Inl OverflowError"
  by code_simp

section \<open>What each operation leaves alone\<close>

lemma emit_fields [simp]:
  "farms (emit x s) = farms s" "heap (emit x s) = heap s" "tasks (emit x s) = tasks s"
  "scheduled_tasks (emit x s) = scheduled_tasks s" "allocated (emit x s) = allocated s"
  "last_message_id (emit x s) = last_message_id s"
  "status_message_id (emit x s) = status_message_id s"
  "outputs (emit x s) = outputs s @ [x]"
  by (simp_all add: emit_def)

lemma persist_fields [simp]:
  "farms (persist e s) = farms s" "heap (persist e s) = heap s" "tasks (persist e s) = tasks s"
  "scheduled_tasks (persist e s) = scheduled_tasks s" "allocated (persist e s) = allocated s"
  "last_message_id (persist e s) = last_message_id s"
  "status_message_id (persist e s) = status_message_id s"
  "outputs (persist e s) = outputs s @ [Saved (save_farms (isoformat e) (data_of s))]"
  by (simp_all add: persist_def)

lemma update_farm_fields [simp]:
  "farms (update_farm r g s) = farms s" "tasks (update_farm r g s) = tasks s"
  "scheduled_tasks (update_farm r g s) = scheduled_tasks s"
  "allocated (update_farm r g s) = allocated s"
  "last_message_id (update_farm r g s) = last_message_id s"
  "status_message_id (update_farm r g s) = status_message_id s"
  "outputs (update_farm r g s) = outputs s"
  "heap (update_farm r g s) = (heap s)(r := g (heap s r))"
  by (simp_all add: update_farm_def)

lemma update_farms_embed_fields [simp]:
  "farms (update_farms_embed e s) = farms s" "heap (update_farms_embed e s) = heap s"
  "tasks (update_farms_embed e s) = tasks s"
  "scheduled_tasks (update_farms_embed e s) = scheduled_tasks s"
  "allocated (update_farms_embed e s) = allocated s"
  "last_message_id (update_farms_embed e s) = last_message_id s"
  by (simp_all add: update_farms_embed_def)

lemma cancel_task_fields [simp]:
  "farms (cancel_task i s) = farms s" "heap (cancel_task i s) = heap s"
  "scheduled_tasks (cancel_task i s) = scheduled_tasks s"
  "allocated (cancel_task i s) = allocated s"
  "last_message_id (cancel_task i s) = last_message_id s"
  "status_message_id (cancel_task i s) = status_message_id s"
  "outputs (cancel_task i s) = outputs s"
  "length (tasks (cancel_task i s)) = length (tasks s)"
  by (simp_all add: cancel_task_def)

lemma create_task_fields [simp]:
  "farms (create_task k nm r s) = farms s" "heap (create_task k nm r s) = heap s"
  "allocated (create_task k nm r s) = allocated s"
  "last_message_id (create_task k nm r s) = last_message_id s"
  "status_message_id (create_task k nm r s) = status_message_id s"
  "outputs (create_task k nm r s) = outputs s"
  by (simp_all add: create_task_def)

lemma cancel_and_pop_fields [simp]:
  "farms (cancel_and_pop nm s) = farms s" "heap (cancel_and_pop nm s) = heap s"
  "allocated (cancel_and_pop nm s) = allocated s"
  "last_message_id (cancel_and_pop nm s) = last_message_id s"
  "status_message_id (cancel_and_pop nm s) = status_message_id s"
  "outputs (cancel_and_pop nm s) = outputs s"
  "length (tasks (cancel_and_pop nm s)) = length (tasks s)"
  by (simp_all add: cancel_and_pop_def split: option.splits)

lemma schedule_task_for_farm_fields [simp]:
  "farms (schedule_task_for_farm r s) = farms s" "heap (schedule_task_for_farm r s) = heap s"
  "allocated (schedule_task_for_farm r s) = allocated s"
  "last_message_id (schedule_task_for_farm r s) = last_message_id s"
  "status_message_id (schedule_task_for_farm r s) = status_message_id s"
  "outputs (schedule_task_for_farm r s) = outputs s"
  by (simp_all add: schedule_task_for_farm_def Let_def split: option.splits)

lemma set_task_state_fields [simp]:
  "farms (set_task_state i st s) = farms s" "heap (set_task_state i st s) = heap s"
  "scheduled_tasks (set_task_state i st s) = scheduled_tasks s"
  "allocated (set_task_state i st s) = allocated s"
  "last_message_id (set_task_state i st s) = last_message_id s"
  "status_message_id (set_task_state i st s) = status_message_id s"
  "outputs (set_task_state i st s) = outputs s"
  "length (tasks (set_task_state i st s)) = length (tasks s)"
  by (simp_all add: set_task_state_def)

lemma end_task_fields [simp]:
  "farms (end_task i s) = farms s" "heap (end_task i s) = heap s"
  "scheduled_tasks (end_task i s) = scheduled_tasks s"
  "allocated (end_task i s) = allocated s"
  "last_message_id (end_task i s) = last_message_id s"
  "status_message_id (end_task i s) = status_message_id s"
  "outputs (end_task i s) = outputs s"
  "length (tasks (end_task i s)) = length (tasks s)"
  by (simp_all add: end_task_def)

section \<open>Removal resolves a name by exact match only\<close>

text \<open>
  C10. \<open>removefarm\<close> compares the stripped, lower-case argument with the stripped,
  lower-case name of every farm and has no substring fallback: when no farm matches in
  this way the command answers that the farm was not found and changes nothing else,
  also for a name that \<open>get_farm_exact\<close> (used by the lookup, status and edit commands)
  resolves through its substring search.
\<close>

theorem removefarm_exact_only:
  "\<forall>r \<in> set (farms s). clean_name (heap s r) \<noteq> lower (strip farm_name) \<Longrightarrow>
   removefarm e farm_name s =
     s\<lparr>outputs := outputs s @ [Replied (''Farm '' @ farm_name @ '' not found.'')]\<rparr>"
proof -
  assume "\<forall>r \<in> set (farms s). clean_name (heap s r) \<noteq> lower (strip farm_name)"
  then have "filter (\<lambda>r. clean_name (heap s r) = lower (strip farm_name)) (farms s) = []"
    by (simp add: filter_empty_conv)
  then show ?thesis
    by (simp add: removefarm_def emit_def)
qed

theorem removefarm_exact_only_witness:
  "get_farm_exact example_bot ''wheat'' = Some 0 \<and>
   removefarm (example_env noon) ''wheat'' example_bot =
     example_bot\<lparr>outputs := outputs example_bot @ [Replied (''Farm '' @ ''wheat'' @ '' not found.'')]\<rparr>"
proof -
  have h: "\<forall>r \<in> set (farms example_bot). clean_name (heap example_bot r) \<noteq> lower (strip ''wheat'')"
    by code_simp
  have "get_farm_exact example_bot ''wheat'' = Some 0"
    by code_simp
  with removefarm_exact_only [OF h] show ?thesis
    by simp
qed

section \<open>A name that matches several farms\<close>

lemma heap_handle_start:
  "heap (handle_start e t u c r s) =
     (heap s)(r := (heap s r)\<lparr>status := Some (PStr STATUS_FARMING), next_ready := Some PNone\<rparr>)"
  by (simp add: handle_start_def Let_def)

lemma heap_handle_finish:
  "heap (handle_finish e t u c r s) =
     (heap s)(r := (heap s r)
        \<lparr>next_ready := Some (PDatetime (Datetime (instant c + as_timedelta (regrow_time (heap s r))) (tzoff c))),
         status := Some (PStr STATUS_FARMING)\<rparr>)"
  by (simp add: handle_finish_def Let_def)

lemma heap_apply_status_other:
  "x \<noteq> r \<Longrightarrow> heap (apply_status e m t u msg r s) x = heap s x"
  by (simp add: apply_status_def Let_def heap_handle_start heap_handle_finish)

lemma farms_handle_start [simp]: "farms (handle_start e t u c r s) = farms s"
  by (simp add: handle_start_def Let_def)

lemma farms_handle_finish [simp]: "farms (handle_finish e t u c r s) = farms s"
  by (simp add: handle_finish_def Let_def)

lemma farms_apply_status [simp]: "farms (apply_status e m t u msg r s) = farms s"
  by (simp add: apply_status_def Let_def)

text \<open>
  C3, as the code has it. A line whose name phrase resolves to no farm is dropped with
  a diagnostic and nothing else changes. A phrase that matches several farms is not
  dropped: \<open>get_farm_exact\<close> takes the first candidate in the order of the registry, the
  line is applied to that farm, and no other farm is touched.
\<close>

theorem name_resolution_first_match:
  assumes "kira_match m = Some (time_str, user, msg)" and "CHR ''|'' \<in> set msg"
  shows "case find_farms_by_name_partial s (farm_name_part msg) of
           [] \<Rightarrow> process_kira_message e m s =
                  s\<lparr>outputs := outputs s @ [Printed (''Unknown farm in Kira message: '' @ farm_name_part msg)]\<rparr>
         | r # rs \<Rightarrow> process_kira_message e m s = apply_status e m time_str user msg r s \<and>
                     (\<forall>x. x \<noteq> r \<longrightarrow> heap (process_kira_message e m s) x = heap s x)"
  using assms
  by (simp add: process_kira_message_def get_farm_exact_def emit_def heap_apply_status_other
      split: list.splits)

theorem name_resolution_first_match_witness:
  "process_kira_message (example_env (noon + 7)) started_line example_bot =
     apply_status (example_env (noon + 7)) started_line ''12:00:05'' ''Steve'' ''farm | is being started'' 0 example_bot \<and>
   heap (process_kira_message (example_env (noon + 7)) started_line example_bot) 1 = heap example_bot 1"
proof -
  have a: "kira_match started_line = Some (''12:00:05'', ''Steve'', ''farm | is being started'')"
    by (simp add: started_line_def)
  have b: "CHR ''|'' \<in> set ''farm | is being started''"
    by simp
  have c: "find_farms_by_name_partial example_bot (farm_name_part ''farm | is being started'') = [0, 1]"
    by code_simp
  note t = name_resolution_first_match [OF a b, where s = example_bot and e = "example_env (noon + 7)",
      unfolded c list.case]
  from t have "heap (process_kira_message (example_env (noon + 7)) started_line example_bot) 1 =
      heap example_bot 1"
    by (metis zero_neq_one)
  with t show ?thesis
    by blast
qed

text \<open>
  C3 as the specification states it fails: the phrase \<open>farm\<close> matches both ``Wheat Farm'' and
  ``Corn Farm'', and the start line is applied to the first of them.
\<close>

theorem ambiguous_name_counterexample:
  "length (find_farms_by_name_partial example_bot (farm_name_part ''farm | is being started'')) = 2 \<and>
   heap (process_kira_message (example_env (noon + 7)) started_line example_bot) 0 \<noteq> heap example_bot 0"
  by code_simp

section \<open>A finish line fixes the time of readiness\<close>



section \<open>Outputs of the handlers\<close>

lemma new_outputs_append [simp]: "outputs s' = outputs s @ xs \<Longrightarrow> new_outputs s s' = xs"
  by (simp add: new_outputs_def)

lemma data_of_farms [simp]: "snap_farms (data_of s) = Some (map (heap s) (farms s))"
  by (simp add: data_of_def)

lemma save_farms_farms [simp]:
  "snap_farms (save_farms pr d) = Some (map (save_farm pr) (case snap_farms d of None \<Rightarrow> [] | Some fs \<Rightarrow> fs))"
  by (simp add: save_farms_def)



lemma pings_update_farms_embed [simp]:
  "filter is_ping (outputs (update_farms_embed e s)) = filter is_ping (outputs s)"
  by (simp add: update_farms_embed_def)



lemma saved_first:
  "xs = Saved d # ys \<Longrightarrow> snap_farms d = Some post \<Longrightarrow> saved_before_sent post xs"
  by simp


lemma notify_fields [simp]:
  "farms (notify_farm_ready_plain e r s) = farms s"
  "tasks (notify_farm_ready_plain e r s) = tasks s"
  "scheduled_tasks (notify_farm_ready_plain e r s) = scheduled_tasks s"
  by (simp_all add: notify_farm_ready_plain_def Let_def)

lemma heap_failsafe_expired:
  "heap (failsafe_expired e b r s) =
     (if py_get (next_ready (heap s r)) = PNone then
        (case regrow_time (heap s r) of
           Some (PTimedelta d) \<Rightarrow>
             (heap s)(r := (heap s r)\<lparr>next_ready := Some (PDatetime (Datetime (now e + d) (Some 0))),
                                     status := Some (PStr STATUS_FARMING)\<rparr>)
         | _ \<Rightarrow> heap s)
      else heap s)"
  by (simp add: failsafe_expired_def Let_def split: option.splits pyval.splits)

lemma farms_failsafe_expired [simp]: "farms (failsafe_expired e b r s) = farms s"
  by (simp add: failsafe_expired_def Let_def split: option.splits pyval.splits)

lemma end_task_new_outputs [simp]: "new_outputs s (end_task i s') = new_outputs s s'"
  by (simp add: new_outputs_def)

section \<open>Readiness when the channel does not resolve\<close>

text \<open>
  C5. The specification's sentence does not hold of the code: \<open>notify_farm_ready_plain\<close> looks the channel
  up first and returns when it is missing, before it sets the status and clears
  \<open>next_ready\<close>. Evaluated on \<open>sleeping_bot\<close>, whose readiness task wakes at noon: without
  the channel the farm stays \<open>STATUS_FARMING\<close> with its \<open>next_ready\<close>, nothing is saved,
  and the task is over; with the channel the farm becomes \<open>STATUS_READY\<close>.
\<close>

theorem readiness_without_channel:
  "task_state (tasks sleeping_bot ! 0) = Sleeping noon \<and>
   status (heap sleeping_bot 0) = Some (PStr STATUS_FARMING) \<and>
   status (heap (task_wake (offline_env noon) 0 sleeping_bot) 0) = Some (PStr STATUS_FARMING) \<and>
   next_ready (heap (task_wake (offline_env noon) 0 sleeping_bot) 0) = Some (PDatetime (Datetime noon (Some 0))) \<and>
   new_outputs sleeping_bot (task_wake (offline_env noon) 0 sleeping_bot) = [Printed ''Bot updates channel not found''] \<and>
   task_state (tasks (task_wake (offline_env noon) 0 sleeping_bot) ! 0) = Ended \<and>
   status (heap (task_wake (example_env noon) 0 sleeping_bot) 0) = Some (PStr STATUS_READY)"
  by code_simp

section \<open>The file is written before anything is sent\<close>








section \<open>The failsafe timer\<close>

lemma tasks_create_task:
  "tasks (create_task k nm r s) =
     tasks s @ [\<lparr>task_kind = k, task_key = nm, task_farm = r, task_state = Created\<rparr>]"
  "scheduled_tasks (create_task k nm r s) = (scheduled_tasks s)(nm := Some (length (tasks s)))"
  by (simp_all add: create_task_def)







section \<open>The failsafe fires\<close>

lemma schedule_task_for_farm_truthy:
  assumes "truthy (py_get (next_ready (heap s r)))"
  shows "tasks (schedule_task_for_farm r s) ! length (tasks s) =
           \<lparr>task_kind = NotifyTask, task_key = name (heap s r), task_farm = r, task_state = Created\<rparr>"
    and "length (tasks (schedule_task_for_farm r s)) = Suc (length (tasks s))"
    and "scheduled_tasks (schedule_task_for_farm r s) (name (heap s r)) = Some (length (tasks s))"
  using assms
  by (simp_all add: schedule_task_for_farm_def Let_def tasks_create_task nth_append split: option.splits)




lemma task_start_notify:
  assumes "i < length (tasks s)"
    and "tasks s ! i = \<lparr>task_kind = NotifyTask, task_key = k, task_farm = r, task_state = Created\<rparr>"
    and "next_ready (heap s r) = Some (PDatetime (Datetime ts (Some z)))"
    and "now e < ts"
  shows "task_start e i s = set_task_state i (Sleeping ts) s"
  using assms
  by (simp add: task_start_def schedule_notification_for_farm_def sleep_or_notify_def py_get_def
      as_utc_def)






section \<open>At most one armed timer for a name\<close>

lemma scheduler_ok_same:
  "tasks s' = tasks s \<Longrightarrow> scheduled_tasks s' = scheduled_tasks s \<Longrightarrow> scheduler_ok s' = scheduler_ok s"
  by (simp add: scheduler_ok_def)

lemma scheduler_ok_emit [simp]: "scheduler_ok (emit x s) = scheduler_ok s"
  by (rule scheduler_ok_same) simp_all

lemma scheduler_ok_persist [simp]: "scheduler_ok (persist e s) = scheduler_ok s"
  by (rule scheduler_ok_same) simp_all

lemma scheduler_ok_update_farm [simp]: "scheduler_ok (update_farm r g s) = scheduler_ok s"
  by (rule scheduler_ok_same) simp_all

lemma scheduler_ok_update_farms_embed [simp]: "scheduler_ok (update_farms_embed e s) = scheduler_ok s"
  by (rule scheduler_ok_same) simp_all

lemma scheduler_ok_notify [simp]: "scheduler_ok (notify_farm_ready_plain e r s) = scheduler_ok s"
  by (rule scheduler_ok_same) simp_all

lemma scheduler_ok_last [simp]: "scheduler_ok (s\<lparr>last_message_id := v\<rparr>) = scheduler_ok s"
  by (rule scheduler_ok_same) simp_all

lemma scheduler_ok_farms [simp]: "scheduler_ok (s\<lparr>farms := v\<rparr>) = scheduler_ok s"
  by (rule scheduler_ok_same) simp_all

lemma tasks_cancel_task:
  "tasks (cancel_task i s) ! j =
     (if j = i \<and> i < length (tasks s) \<and> \<not> task_over (tasks s ! i)
      then (tasks s ! i)\<lparr>task_state := Cancelled\<rparr> else tasks s ! j)"
  by (simp add: cancel_task_def)

lemma task_over_cancelled [simp]: "task_over (t\<lparr>task_state := Cancelled\<rparr>)"
  by (simp add: task_over_def)

lemma task_key_cancel_task [simp]: "task_key (tasks (cancel_task i s) ! j) = task_key (tasks s ! j)"
  by (simp add: tasks_cancel_task)

lemma task_over_cancel_task:
  "\<not> task_over (tasks (cancel_task i s) ! j) \<Longrightarrow> \<not> task_over (tasks s ! j)"
  by (simp add: tasks_cancel_task split: if_splits)

lemma scheduler_ok_cancel_task:
  assumes "scheduler_ok s"
  shows "scheduler_ok (cancel_task i s)"
  unfolding scheduler_ok_def
proof (intro conjI allI impI)
  fix j
  assume "j < length (tasks (cancel_task i s))" and "\<not> task_over (tasks (cancel_task i s) ! j)"
  then have "j < length (tasks s)" and "\<not> task_over (tasks s ! j)"
    by (simp_all add: task_over_cancel_task)
  with assms show "scheduled_tasks (cancel_task i s) (task_key (tasks (cancel_task i s) ! j)) = Some j"
    by (simp add: scheduler_ok_def)
next
  fix k j
  assume "scheduled_tasks (cancel_task i s) k = Some j"
  with assms show "j < length (tasks (cancel_task i s))"
    by (simp add: scheduler_ok_def)
next
  fix k j
  assume "scheduled_tasks (cancel_task i s) k = Some j"
  with assms show "task_key (tasks (cancel_task i s) ! j) = k"
    by (simp add: scheduler_ok_def)
qed

lemma unarmed_cancel_scheduled:
  assumes "scheduler_ok s"
  shows "unarmed nm (case scheduled_tasks s nm of None \<Rightarrow> s | Some old \<Rightarrow> cancel_task old s)"
    (is "unarmed nm ?s1")
  unfolding unarmed_def
proof (intro allI impI)
  fix i
  assume i: "i < length (tasks ?s1)" and k: "task_key (tasks ?s1 ! i) = nm"
  have l: "i < length (tasks s)"
    using i by (simp split: option.splits)
  have ks: "task_key (tasks s ! i) = nm"
    using k by (simp split: option.splits)
  show "task_over (tasks ?s1 ! i)"
  proof (cases "task_over (tasks s ! i)")
    case True
    then show ?thesis
      by (simp add: tasks_cancel_task split: option.splits)
  next
    case False
    with assms l ks have "scheduled_tasks s nm = Some i"
      unfolding scheduler_ok_def by blast
    with False l show ?thesis
      by (simp add: tasks_cancel_task)
  qed
qed

lemma scheduler_ok_create_task:
  assumes ok: "scheduler_ok s" and un: "unarmed nm s"
  shows "scheduler_ok (create_task k nm r s)"
  unfolding scheduler_ok_def
proof (intro conjI allI impI)
  fix i
  assume i: "i < length (tasks (create_task k nm r s))"
    and a: "\<not> task_over (tasks (create_task k nm r s) ! i)"
  show "scheduled_tasks (create_task k nm r s) (task_key (tasks (create_task k nm r s) ! i)) = Some i"
  proof (cases "i < length (tasks s)")
    case True
    with a have na: "\<not> task_over (tasks s ! i)"
      by (simp add: tasks_create_task nth_append)
    with un True have "task_key (tasks s ! i) \<noteq> nm"
      unfolding unarmed_def by blast
    moreover from ok True na have "scheduled_tasks s (task_key (tasks s ! i)) = Some i"
      unfolding scheduler_ok_def by blast
    ultimately show ?thesis
      using True by (simp add: tasks_create_task nth_append)
  next
    case False
    with i have "i = length (tasks s)"
      by (simp add: tasks_create_task)
    then show ?thesis
      by (simp add: tasks_create_task)
  qed
next
  fix k' i
  assume s: "scheduled_tasks (create_task k nm r s) k' = Some i"
  show "i < length (tasks (create_task k nm r s))"
  proof (cases "k' = nm")
    case True
    with s show ?thesis
      by (simp add: tasks_create_task)
  next
    case False
    with s have "scheduled_tasks s k' = Some i"
      by (simp add: tasks_create_task)
    with ok have "i < length (tasks s)"
      unfolding scheduler_ok_def by blast
    then show ?thesis
      by (simp add: tasks_create_task)
  qed
next
  fix k' i
  assume s: "scheduled_tasks (create_task k nm r s) k' = Some i"
  show "task_key (tasks (create_task k nm r s) ! i) = k'"
  proof (cases "k' = nm")
    case True
    with s show ?thesis
      by (auto simp: tasks_create_task)
  next
    case False
    with s have "scheduled_tasks s k' = Some i"
      by (simp add: tasks_create_task)
    with ok have "i < length (tasks s)" and "task_key (tasks s ! i) = k'"
      unfolding scheduler_ok_def by blast+
    then show ?thesis
      by (simp add: tasks_create_task nth_append)
  qed
qed

lemma unarmed_filter:
  assumes "unarmed nm s"
  shows "filter (armed nm) (tasks s) = []"
proof -
  have "\<not> armed nm x" if "x \<in> set (tasks s)" for x
  proof -
    from that obtain i where "i < length (tasks s)" and "x = tasks s ! i"
      unfolding in_set_conv_nth by blast
    with assms show ?thesis
      unfolding unarmed_def armed_def by blast
  qed
  then show ?thesis
    unfolding filter_empty_conv by blast
qed

lemma unarmed_create_task:
  assumes "unarmed nm s"
  shows "filter (armed nm) (tasks (create_task k nm r s)) =
           [\<lparr>task_kind = k, task_key = nm, task_farm = r, task_state = Created\<rparr>]"
  using unarmed_filter [OF assms]
  by (simp add: tasks_create_task armed_def task_over_def)

lemma scheduler_ok_schedule_task_for_farm:
  assumes "scheduler_ok s"
  shows "scheduler_ok (schedule_task_for_farm r s)"
proof -
  let ?s1 = "case scheduled_tasks s (name (heap s r)) of None \<Rightarrow> s | Some old \<Rightarrow> cancel_task old s"
  have ok: "scheduler_ok ?s1"
    using assms by (simp add: scheduler_ok_cancel_task split: option.splits)
  have un: "unarmed (name (heap s r)) ?s1"
    using assms by (rule unarmed_cancel_scheduled)
  show ?thesis
    using ok scheduler_ok_create_task [OF ok un]
    by (simp add: schedule_task_for_farm_def Let_def)
qed

lemma scheduler_ok_pop:
  assumes "scheduler_ok s" and "unarmed nm s"
  shows "scheduler_ok (s\<lparr>scheduled_tasks := (scheduled_tasks s)(nm := None)\<rparr>)"
  using assms unfolding scheduler_ok_def unarmed_def
  by simp

lemma unarmed_same:
  "tasks s' = tasks s \<Longrightarrow> unarmed nm s' = unarmed nm s"
  by (simp add: unarmed_def)

lemma unarmed_cancel_task:
  assumes "scheduler_ok s" and "scheduled_tasks s nm = Some old"
  shows "unarmed nm (cancel_task old s)"
  using unarmed_cancel_scheduled [OF assms(1), of nm] assms(2) by simp

lemma unarmed_unscheduled:
  assumes "scheduler_ok s" and "scheduled_tasks s nm = None"
  shows "unarmed nm s"
  using unarmed_cancel_scheduled [OF assms(1), of nm] assms(2) by simp

lemma cancel_and_pop_cases:
  "cancel_and_pop nm s = s \<or>
   (\<exists>old. scheduled_tasks s nm = Some old \<and>
      cancel_and_pop nm s = (cancel_task old s)\<lparr>scheduled_tasks := (scheduled_tasks s)(nm := None)\<rparr>)"
  by (simp add: cancel_and_pop_def split: option.splits)

lemma cancel_and_pop_unarmed:
  assumes "scheduler_ok s"
  shows "unarmed nm (cancel_and_pop nm s)"
proof (cases "scheduled_tasks s nm")
  case None
  then have "cancel_and_pop nm s = s"
    by (simp add: cancel_and_pop_def)
  with unarmed_unscheduled [OF assms None] show ?thesis
    by simp
next
  case (Some old)
  have u: "unarmed nm (cancel_task old s)"
    using assms Some by (rule unarmed_cancel_task)
  have "tasks (cancel_and_pop nm s) = tasks (cancel_task old s)"
    unfolding cancel_and_pop_def Some by (simp add: cancel_task_def)
  then have "unarmed nm (cancel_and_pop nm s) = unarmed nm (cancel_task old s)"
    by (rule unarmed_same)
  with u show ?thesis
    by blast
qed

lemma cancel_and_pop_scheduler_ok:
  assumes "scheduler_ok s"
  shows "scheduler_ok (cancel_and_pop nm s)"
proof -
  from cancel_and_pop_cases [of nm s] show ?thesis
  proof
    assume "cancel_and_pop nm s = s"
    with assms show ?thesis
      by simp
  next
    assume "\<exists>old. scheduled_tasks s nm = Some old \<and>
      cancel_and_pop nm s = (cancel_task old s)\<lparr>scheduled_tasks := (scheduled_tasks s)(nm := None)\<rparr>"
    then obtain old where o: "scheduled_tasks s nm = Some old"
      and c: "cancel_and_pop nm s = (cancel_task old s)\<lparr>scheduled_tasks := (scheduled_tasks s)(nm := None)\<rparr>"
      by blast
    have ok: "scheduler_ok (cancel_task old s)"
      using assms by (rule scheduler_ok_cancel_task)
    have un: "unarmed nm (cancel_task old s)"
      using assms o by (rule unarmed_cancel_task)
    have "scheduler_ok ((cancel_task old s)\<lparr>scheduled_tasks := (scheduled_tasks (cancel_task old s))(nm := None)\<rparr>)"
      using ok un by (rule scheduler_ok_pop)
    then show ?thesis
      unfolding c by simp
  qed
qed

lemma scheduler_ok_handle_start:
  assumes "scheduler_ok s"
  shows "scheduler_ok (handle_start e t u c r s)"
proof -
  let ?s2 = "update_farms_embed e (persist e (update_farm r
      (\<lambda>f. f\<lparr>status := Some (PStr STATUS_FARMING), next_ready := Some PNone\<rparr>) s))"
  let ?nm = "name (heap ?s2 r)"
  have ok2: "scheduler_ok ?s2"
    using assms by simp
  have "scheduler_ok (create_task (FailsafeTask (bot_channel e)) ?nm r (cancel_and_pop ?nm ?s2))"
    using cancel_and_pop_scheduler_ok [OF ok2] cancel_and_pop_unarmed [OF ok2]
    by (rule scheduler_ok_create_task)
  then show ?thesis
    by (cases "bot_channel e") (simp_all add: handle_start_def Let_def)
qed

lemma scheduler_ok_handle_finish:
  assumes "scheduler_ok s"
  shows "scheduler_ok (handle_finish e t u c r s)"
proof -
  let ?s1 = "update_farms_embed e (persist e (update_farm r
      (\<lambda>f. f\<lparr>next_ready := Some (PDatetime (Datetime (instant c + as_timedelta (regrow_time (heap s r))) (tzoff c))),
              status := Some (PStr STATUS_FARMING)\<rparr>) s))"
  have "scheduler_ok ?s1"
    using assms by simp
  then have "scheduler_ok (schedule_task_for_farm r ?s1)"
    by (rule scheduler_ok_schedule_task_for_farm)
  then show ?thesis
    by (simp add: handle_finish_def Let_def)
qed

lemma scheduler_ok_apply_status:
  assumes "scheduler_ok s"
  shows "scheduler_ok (apply_status e m t u msg r s)"
proof -
  have "scheduler_ok (update_farm r normalize_durations s)"
    using assms by simp
  then show ?thesis
    by (simp add: apply_status_def Let_def scheduler_ok_handle_start scheduler_ok_handle_finish)
qed

lemma scheduler_ok_process_kira_message:
  assumes "scheduler_ok s"
  shows "scheduler_ok (process_kira_message e m s)"
  using assms
  by (simp add: process_kira_message_def scheduler_ok_apply_status split: option.splits prod.splits)

lemma scheduler_ok_on_message:
  "scheduler_ok s \<Longrightarrow> scheduler_ok (on_message e m s)"
  by (simp add: on_message_def scheduler_ok_process_kira_message)

lemma scheduler_ok_failsafe_expired:
  assumes "scheduler_ok s"
  shows "scheduler_ok (failsafe_expired e b r s)"
proof (cases "py_get (next_ready (heap s r)) = PNone \<and> (\<exists>d. regrow_time (heap s r) = Some (PTimedelta d))")
  case False
  then have "failsafe_expired e b r s = s"
    by (auto simp: failsafe_expired_def split: option.splits pyval.splits)
  with assms show ?thesis
    by simp
next
  case True
  then obtain d where d: "regrow_time (heap s r) = Some (PTimedelta d)"
    and n: "py_get (next_ready (heap s r)) = PNone"
    by blast
  let ?s2 = "update_farms_embed e (persist e (update_farm r
      (\<lambda>f. f\<lparr>next_ready := Some (PDatetime (Datetime (now e + d) (Some 0))),
              status := Some (PStr STATUS_FARMING)\<rparr>) s))"
  have "scheduler_ok ?s2"
    using assms by simp
  then have "scheduler_ok (schedule_task_for_farm r ?s2)"
    by (rule scheduler_ok_schedule_task_for_farm)
  then show ?thesis
    using d n by (simp add: failsafe_expired_def Let_def)
qed

lemma tasks_set_task_state:
  "tasks (set_task_state i st s) ! j =
     (if j = i \<and> i < length (tasks s) then (tasks s ! i)\<lparr>task_state := st\<rparr> else tasks s ! j)"
  by (cases "j = i"; cases "i < length (tasks s)") (simp_all add: set_task_state_def list_update_beyond)

lemma task_key_set_task_state [simp]:
  "task_key (tasks (set_task_state i st s) ! j) = task_key (tasks s ! j)"
  by (simp add: tasks_set_task_state)

lemma scheduler_ok_set_task_state:
  assumes ok: "scheduler_ok s"
    and st: "\<not> task_over (tasks s ! i) \<or> st = Ended \<or> st = Cancelled"
  shows "scheduler_ok (set_task_state i st s)"
  unfolding scheduler_ok_def
proof (intro conjI allI impI)
  fix j
  assume j: "j < length (tasks (set_task_state i st s))"
    and a: "\<not> task_over (tasks (set_task_state i st s) ! j)"
  have "\<not> task_over (tasks s ! j)"
  proof (cases "j = i")
    case True
    with a j have "st \<noteq> Ended \<and> st \<noteq> Cancelled"
      by (auto simp: tasks_set_task_state task_over_def)
    with st True show ?thesis
      by blast
  next
    case False
    with a show ?thesis
      by (simp add: tasks_set_task_state)
  qed
  with ok j have "scheduled_tasks s (task_key (tasks s ! j)) = Some j"
    unfolding scheduler_ok_def by simp
  then show "scheduled_tasks (set_task_state i st s) (task_key (tasks (set_task_state i st s) ! j)) = Some j"
    by simp
next
  fix k j
  assume "scheduled_tasks (set_task_state i st s) k = Some j"
  with ok show "j < length (tasks (set_task_state i st s))"
    unfolding scheduler_ok_def by simp
next
  fix k j
  assume "scheduled_tasks (set_task_state i st s) k = Some j"
  with ok show "task_key (tasks (set_task_state i st s) ! j) = k"
    unfolding scheduler_ok_def by simp
qed

lemma scheduler_ok_end_task:
  "scheduler_ok s \<Longrightarrow> scheduler_ok (end_task i s)"
  by (simp add: end_task_def scheduler_ok_set_task_state)

lemma schedule_notification_timers:
  "tasks (snd (schedule_notification_for_farm e r s)) = tasks s"
  "scheduled_tasks (snd (schedule_notification_for_farm e r s)) = scheduled_tasks s"
  by (simp_all add: schedule_notification_for_farm_def sleep_or_notify_def
      split: pyval.splits option.splits)

lemma scheduler_ok_task_start:
  assumes "scheduler_ok s"
  shows "scheduler_ok (task_start e i s)"
proof (cases "i < length (tasks s) \<and> task_state (tasks s ! i) = Created")
  case False
  then have "task_start e i s = s"
    by (auto simp: task_start_def)
  with assms show ?thesis
    by simp
next
  case True
  then have act: "\<not> task_over (tasks s ! i)"
    by (simp add: task_over_def)
  show ?thesis
  proof (cases "task_kind (tasks s ! i)")
    case (FailsafeTask b)
    have "scheduler_ok (set_task_state i st s)" for st
      using assms act by (simp add: scheduler_ok_set_task_state)
    with True FailsafeTask show ?thesis
      by (simp add: task_start_def split: option.splits pyval.splits)
  next
    case NotifyTask
    obtain st s1 where p: "schedule_notification_for_farm e (task_farm (tasks s ! i)) s = (st, s1)"
      by (cases "schedule_notification_for_farm e (task_farm (tasks s ! i)) s")
    have t: "tasks s1 = tasks s" and sc: "scheduled_tasks s1 = scheduled_tasks s"
      using schedule_notification_timers [of e "task_farm (tasks s ! i)" s] p by simp_all
    have "scheduler_ok s1 = scheduler_ok s"
      using t sc by (rule scheduler_ok_same)
    with assms have ok1: "scheduler_ok s1"
      by simp
    have "scheduler_ok (set_task_state i st s1)"
      using ok1 act t by (simp add: scheduler_ok_set_task_state)
    with True NotifyTask p show ?thesis
      by (simp add: task_start_def)
  qed
qed

lemma scheduler_ok_task_wake:
  assumes "scheduler_ok s"
  shows "scheduler_ok (task_wake e i s)"
proof (cases "i < length (tasks s) \<and> (\<exists>t. task_state (tasks s ! i) = Sleeping t \<and> t \<le> now e)")
  case False
  then have "task_wake e i s = s"
    by (auto simp: task_wake_def split: task_state.splits)
  with assms show ?thesis
    by simp
next
  case True
  have "scheduler_ok (end_task i (failsafe_expired e b (task_farm (tasks s ! i)) s))" for b
    using assms by (simp add: scheduler_ok_end_task scheduler_ok_failsafe_expired)
  moreover have "scheduler_ok (end_task i (notify_farm_ready_plain e (task_farm (tasks s ! i)) s))"
    using assms by (simp add: scheduler_ok_end_task)
  ultimately show ?thesis
    using True by (auto simp: task_wake_def split: task_kind.splits)
qed

lemma scheduler_ok_removefarm:
  assumes "scheduler_ok s"
  shows "scheduler_ok (removefarm e n s)"
proof (cases "filter (\<lambda>r. clean_name (heap s r) = lower (strip n)) (farms s)")
  case Nil
  with assms show ?thesis
    by (simp add: removefarm_def)
next
  case (Cons r rs)
  have "scheduler_ok (cancel_and_pop (name (heap s r)) s)"
    using assms by (rule cancel_and_pop_scheduler_ok)
  with Cons show ?thesis
    by (simp add: removefarm_def Let_def)
qed

lemma scheduler_ok_editfarm:
  assumes "scheduler_ok s"
  shows "scheduler_ok (editfarm e n crd out rt rg s)"
proof (cases "get_farm_exact s n")
  case None
  with assms show ?thesis
    by (simp add: editfarm_def)
next
  case (Some r)
  have "scheduler_ok (persist e (update_farm r (edit_fields crd out rt rg) s))"
    using assms by simp
  then have "scheduler_ok (schedule_task_for_farm r (persist e (update_farm r (edit_fields crd out rt rg) s)))"
    by (rule scheduler_ok_schedule_task_for_farm)
  with Some show ?thesis
    by (simp add: editfarm_def Let_def)
qed

lemma scheduler_ok_addfarm:
  assumes "scheduler_ok s"
  shows "scheduler_ok (addfarm e n crd out rt rg s)"
proof -
  have "scheduler_ok (s\<lparr>heap := h, farms := f, allocated := a\<rparr>) = scheduler_ok s" for h f a
    by (rule scheduler_ok_same) simp_all
  with assms show ?thesis
    by (simp add: addfarm_def Let_def)
qed

lemma scheduler_ok_reschedule_farm:
  assumes "scheduler_ok s"
  shows "scheduler_ok (reschedule_farm e r s)"
proof -
  let ?s1 = "update_farm r (parse_next_ready e) s"
  have ok1: "scheduler_ok ?s1"
    using assms by simp
  show ?thesis
  proof (cases "py_get (next_ready (heap ?s1 r))")
    case (PDatetime t)
    let ?s2 = "update_farm r (\<lambda>f. f\<lparr>next_ready := Some (PDatetime (as_utc t))\<rparr>) ?s1"
    have "scheduler_ok ?s2"
      using ok1 by simp
    then have "scheduler_ok (schedule_task_for_farm r ?s2)"
      by (rule scheduler_ok_schedule_task_for_farm)
    with PDatetime ok1 show ?thesis
      by (simp add: reschedule_farm_def Let_def)
  qed (use ok1 in \<open>simp_all add: reschedule_farm_def Let_def\<close>)
qed

lemma fold_preserves:
  assumes "\<And>x s. P s \<Longrightarrow> P (f x s)" and "P s"
  shows "P (fold f xs s)"
  using assms(2) by (induction xs arbitrary: s) (simp_all add: assms(1))

lemma scheduler_ok_on_ready:
  assumes "scheduler_ok s"
  shows "scheduler_ok (on_ready e h s)"
proof -
  have 1: "scheduler_ok (fold (process_kira_message e) ms s)" for ms
    using scheduler_ok_process_kira_message assms by (rule fold_preserves)
  have 2: "scheduler_ok (schedule_existing_farms e s')" if "scheduler_ok s'" for s'
    unfolding schedule_existing_farms_def
    using scheduler_ok_reschedule_farm that by (rule fold_preserves)
  show ?thesis
    using assms 1 2 by (simp add: on_ready_def Let_def split: option.splits)
qed

lemma scheduler_ok_step: "scheduler_ok s \<Longrightarrow> scheduler_ok (step ev s)"
  by (cases ev)
     (simp_all add: scheduler_ok_on_message scheduler_ok_task_start scheduler_ok_task_wake
       scheduler_ok_removefarm scheduler_ok_editfarm scheduler_ok_addfarm scheduler_ok_on_ready)

lemma scheduler_ok_run: "scheduler_ok s \<Longrightarrow> scheduler_ok (run evs s)"
  unfolding run_def using scheduler_ok_step by (rule fold_preserves)

lemma scheduler_ok_initial_bot: "initial_bot e file = Inr s \<Longrightarrow> scheduler_ok s"
  by (auto simp: initial_bot_def Let_def bot_of_def scheduler_ok_def persist_def emit_def
      split: sum.splits if_splits)

lemma example_bot_loaded:
  "initial_bot (example_env noon) (Envelope example_snapshot) = Inr example_bot"
proof -
  have "\<not> isl (initial_bot (example_env noon) (Envelope example_snapshot))"
    by code_simp
  then show ?thesis
    by (simp add: example_bot_def)
qed

lemma armed_at_most_one:
  assumes "scheduler_ok s"
  shows "armed_timers s nm \<le> 1"
proof (cases "scheduled_tasks s nm")
  case None
  with assms have "unarmed nm s"
    by (rule unarmed_unscheduled)
  then show ?thesis
    by (simp add: armed_timers_def unarmed_filter)
next
  case (Some i0)
  have "{i. i < length (tasks s) \<and> armed nm (tasks s ! i)} \<subseteq> {i0}"
  proof
    fix i
    assume "i \<in> {i. i < length (tasks s) \<and> armed nm (tasks s ! i)}"
    then have "i < length (tasks s)" and "task_key (tasks s ! i) = nm" and "\<not> task_over (tasks s ! i)"
      by (simp_all add: armed_def)
    with assms have "scheduled_tasks s nm = Some i"
      unfolding scheduler_ok_def by blast
    with Some show "i \<in> {i0}"
      by simp
  qed
  then have "card {i. i < length (tasks s) \<and> armed nm (tasks s ! i)} \<le> card {i0}"
    by (intro card_mono) simp_all
  then show ?thesis
    by (simp add: armed_timers_def length_filter_conv_card)
qed

lemma schedule_task_for_farm_replaces:
  assumes "scheduler_ok s" and "truthy (py_get (next_ready (heap s r)))"
  shows "filter (armed (name (heap s r))) (tasks (schedule_task_for_farm r s)) =
           [\<lparr>task_kind = NotifyTask, task_key = name (heap s r), task_farm = r, task_state = Created\<rparr>]"
proof -
  let ?s1 = "case scheduled_tasks s (name (heap s r)) of None \<Rightarrow> s | Some old \<Rightarrow> cancel_task old s"
  have un: "unarmed (name (heap s r)) ?s1"
    using assms(1) by (rule unarmed_cancel_scheduled)
  have h: "heap ?s1 = heap s"
    by (simp split: option.splits)
  have "schedule_task_for_farm r s = create_task NotifyTask (name (heap s r)) r ?s1"
    using assms(2) h by (simp add: schedule_task_for_farm_def Let_def)
  with unarmed_create_task [OF un] show ?thesis
    by simp
qed

lemma schedule_task_for_farm_clears:
  assumes "scheduler_ok s" and "\<not> truthy (py_get (next_ready (heap s r)))"
  shows "filter (armed (name (heap s r))) (tasks (schedule_task_for_farm r s)) = []"
proof -
  let ?s1 = "case scheduled_tasks s (name (heap s r)) of None \<Rightarrow> s | Some old \<Rightarrow> cancel_task old s"
  have un: "unarmed (name (heap s r)) ?s1"
    using assms(1) by (rule unarmed_cancel_scheduled)
  have h: "heap ?s1 = heap s"
    by (simp split: option.splits)
  have "schedule_task_for_farm r s = ?s1"
    using assms(2) h by (simp add: schedule_task_for_farm_def Let_def)
  with unarmed_filter [OF un] show ?thesis
    by simp
qed

lemma handle_start_replaces:
  assumes "scheduler_ok s"
  shows "filter (armed (name (heap s r))) (tasks (handle_start e t u c r s)) =
           [\<lparr>task_kind = FailsafeTask (bot_channel e), task_key = name (heap s r), task_farm = r,
             task_state = Created\<rparr>]"
proof -
  let ?s2 = "update_farms_embed e (persist e (update_farm r
      (\<lambda>f. f\<lparr>status := Some (PStr STATUS_FARMING), next_ready := Some PNone\<rparr>) s))"
  let ?nm = "name (heap s r)"
  have ok2: "scheduler_ok ?s2"
    using assms by simp
  have un: "unarmed ?nm (cancel_and_pop ?nm ?s2)"
    using ok2 by (rule cancel_and_pop_unarmed)
  have "tasks (handle_start e t u c r s) =
      tasks (create_task (FailsafeTask (bot_channel e)) ?nm r (cancel_and_pop ?nm ?s2))"
    by (simp add: handle_start_def Let_def)
  with unarmed_create_task [OF un] show ?thesis
    by simp
qed

lemma removefarm_cancels:
  assumes "scheduler_ok s"
    and "filter (\<lambda>r. clean_name (heap s r) = lower (strip n)) (farms s) = r # rs"
  shows "armed_timers (removefarm e n s) (name (heap s r)) = 0"
proof -
  have "tasks (removefarm e n s) = tasks (cancel_and_pop (name (heap s r)) s)"
    using assms(2) by (simp add: removefarm_def Let_def)
  moreover have "unarmed (name (heap s r)) (cancel_and_pop (name (heap s r)) s)"
    using assms(1) by (rule cancel_and_pop_unarmed)
  ultimately show ?thesis
    using unarmed_filter [of "name (heap s r)" "cancel_and_pop (name (heap s r)) s"]
    by (simp add: armed_timers_def)
qed

section \<open>Names stay unique\<close>

lemma same_registry_refl [simp]: "same_registry s s"
  by (simp add: same_registry_def)

lemma same_registry_trans: "same_registry s s1 \<Longrightarrow> same_registry s1 s2 \<Longrightarrow> same_registry s s2"
  by (simp add: same_registry_def)

lemma same_registry_basic [simp]:
  "same_registry s (emit x s)" "same_registry s (persist e s)"
  "same_registry s (update_farms_embed e s)" "same_registry s (cancel_task i s)"
  "same_registry s (create_task k nm r s)" "same_registry s (cancel_and_pop nm s)"
  "same_registry s (schedule_task_for_farm r s)" "same_registry s (set_task_state i st s)"
  "same_registry s (end_task i s)"
  by (simp_all add: same_registry_def)

lemma same_registry_update_farm:
  "(\<And>f. name (g f) = name f) \<Longrightarrow> same_registry s (update_farm r g s)"
  by (simp add: same_registry_def)

lemma names_unique_same:
  assumes "same_registry s s'" and "names_unique s"
  shows "names_unique s'"
proof -
  from assms(1) have "(\<lambda>x. clean_name (heap s' x)) = (\<lambda>x. clean_name (heap s x))"
    by (simp add: same_registry_def clean_name_def)
  with assms show ?thesis
    by (simp add: names_unique_def same_registry_def)
qed

lemma same_registry_notify [simp]: "same_registry s (notify_farm_ready_plain e r s)"
  by (simp add: same_registry_def notify_farm_ready_plain_def Let_def)

lemma same_registry_schedule_notification [simp]:
  "same_registry s (snd (schedule_notification_for_farm e r s))"
  by (simp add: same_registry_def schedule_notification_for_farm_def sleep_or_notify_def
      notify_farm_ready_plain_def Let_def split: pyval.splits option.splits)

lemma same_registry_failsafe_expired [simp]: "same_registry s (failsafe_expired e b r s)"
  by (simp add: same_registry_def failsafe_expired_def Let_def split: pyval.splits option.splits)

lemma same_registry_task_start [simp]: "same_registry s (task_start e i s)"
proof (cases "i < length (tasks s) \<and> task_state (tasks s ! i) = Created")
  case False
  then have "task_start e i s = s"
    unfolding task_start_def by (rule if_not_P)
  then show ?thesis
    by simp
next
  case True
  show ?thesis
  proof (cases "task_kind (tasks s ! i)")
    case (FailsafeTask b)
    with True show ?thesis
      by (simp add: task_start_def split: option.splits pyval.splits)
  next
    case NotifyTask
    obtain st s1 where p: "schedule_notification_for_farm e (task_farm (tasks s ! i)) s = (st, s1)"
      by (cases "schedule_notification_for_farm e (task_farm (tasks s ! i)) s")
    have "same_registry s s1"
      using same_registry_schedule_notification [of s e "task_farm (tasks s ! i)"] p by simp
    then have "same_registry s (set_task_state i st s1)"
      by (simp add: same_registry_def)
    with True NotifyTask p show ?thesis
      by (simp add: task_start_def)
  qed
qed

lemma same_registry_task_wake [simp]: "same_registry s (task_wake e i s)"
proof -
  have 1: "same_registry s (end_task i (failsafe_expired e b r s))" for b r
    using same_registry_failsafe_expired [of s e b r] by (simp add: same_registry_def)
  have 2: "same_registry s (end_task i (notify_farm_ready_plain e r s))" for r
    using same_registry_notify [of s e r] by (simp add: same_registry_def)
  show ?thesis
    using 1 2 by (simp add: task_wake_def split: task_kind.splits task_state.splits)
qed

lemma name_normalize_durations [simp]: "name (normalize_durations f) = name f"
  by (simp add: normalize_durations_def)

lemma same_registry_handle_start [simp]: "same_registry s (handle_start e t u c r s)"
  by (simp add: same_registry_def handle_start_def Let_def)

lemma same_registry_handle_finish [simp]: "same_registry s (handle_finish e t u c r s)"
  by (simp add: same_registry_def handle_finish_def Let_def)

lemma same_registry_apply_status [simp]: "same_registry s (apply_status e m t u msg r s)"
proof -
  let ?s0 = "update_farm r normalize_durations s"
  have 0: "same_registry s ?s0"
    by (rule same_registry_update_farm) simp
  have 1: "same_registry s (handle_start e t u c r ?s0)" for c
    by (rule same_registry_trans [OF 0]) simp
  have 2: "same_registry s (handle_finish e t u c r ?s0)" for c
    by (rule same_registry_trans [OF 0]) simp
  have l: "same_registry s x \<Longrightarrow> same_registry s (persist e (x\<lparr>last_message_id := v\<rparr>))" for x v
    by (simp add: same_registry_def)
  show ?thesis
    unfolding apply_status_def Let_def using 0 1 2 by (auto intro!: l)
qed

lemma same_registry_process_kira_message [simp]: "same_registry s (process_kira_message e m s)"
  by (simp add: process_kira_message_def split: option.splits prod.splits)

lemma same_registry_on_message [simp]: "same_registry s (on_message e m s)"
  by (simp add: on_message_def)

lemma same_registry_editfarm [simp]: "same_registry s (editfarm e n crd out rt rg s)"
proof -
  have n: "name (edit_fields crd out rt rg f) = name f" for f
    by (simp add: edit_fields_def Let_def split: option.splits)
  show ?thesis
    by (simp add: same_registry_def editfarm_def Let_def n split: option.splits)
qed

lemma same_registry_reschedule_farm [simp]: "same_registry s (reschedule_farm e r s)"
proof -
  have n: "name (parse_next_ready e f) = name f" for f
    by (simp add: parse_next_ready_def split: pyval.splits)
  show ?thesis
    by (simp add: same_registry_def reschedule_farm_def Let_def n split: pyval.splits)
qed

lemma same_registry_fold:
  assumes "\<And>x s. same_registry s (f x s)"
  shows "same_registry s (fold f xs s)"
proof (induction xs arbitrary: s)
  case Nil
  show ?case by simp
next
  case (Cons x xs)
  have "same_registry s (f x s)"
    by (rule assms)
  moreover have "same_registry (f x s) (fold f xs (f x s))"
    by (rule Cons.IH)
  ultimately show ?case
    by (simp add: same_registry_def)
qed

lemma same_registry_on_ready [simp]: "same_registry s (on_ready e h s)"
proof -
  have 1: "same_registry x (schedule_existing_farms e x)" for x
    unfolding schedule_existing_farms_def by (rule same_registry_fold) simp
  have 2: "same_registry x (update_farms_embed e (schedule_existing_farms e x))" for x
    by (rule same_registry_trans [OF 1]) simp
  have 3: "same_registry s (fold (process_kira_message e) ms s)" for ms
    by (rule same_registry_fold) simp
  show ?thesis
    unfolding on_ready_def Let_def
    by (cases h) (auto intro: 2 same_registry_trans [OF 3 2])
qed

lemma strip_strip: "strip (strip s) = strip s"
proof -
  define a where "a = dropWhile is_space s"
  define b where "b = dropWhile is_space (rev a)"
  have "rev a = takeWhile is_space (rev a) @ b"
    unfolding b_def by simp
  then have a: "a = rev b @ rev (takeWhile is_space (rev a))"
    by (metis rev_append rev_rev_ident)
  have "dropWhile is_space (rev b) = rev b"
  proof (cases "rev b")
    case Nil
    then show ?thesis by simp
  next
    case (Cons x xs)
    with a have "a = x # (xs @ rev (takeWhile is_space (rev a)))"
      by simp
    then have "hd a = x" "a \<noteq> []"
      by (metis list.sel(1), metis list.distinct(1))
    then have "\<not> is_space x"
      unfolding a_def using hd_dropWhile by metis
    with Cons show ?thesis
      by simp
  qed
  moreover have "dropWhile is_space b = b"
    unfolding b_def by simp
  ultimately show ?thesis
    unfolding strip_def a_def [symmetric] b_def [symmetric] by simp
qed

lemma names_unique_removefarm:
  assumes "names_unique s"
  shows "names_unique (removefarm e n s)"
proof (cases "filter (\<lambda>r. clean_name (heap s r) = lower (strip n)) (farms s)")
  case Nil
  then show ?thesis
    using assms by (simp add: removefarm_def names_unique_def)
next
  case (Cons r rs)
  then show ?thesis
    using assms by (simp add: removefarm_def Let_def names_unique_def distinct_map_filter)
qed

lemma names_unique_addfarm:
  assumes "names_unique s"
  shows "names_unique (addfarm e n crd out rt rg s)"
proof (cases "list_ex (\<lambda>r. clean_name (heap s r) = lower (strip n)) (farms s)")
  case True
  then show ?thesis
    using assms by (simp add: addfarm_def names_unique_def)
next
  case False
  then have new: "\<forall>r \<in> set (farms s). clean_name (heap s r) \<noteq> lower (strip n)"
    by (simp add: list_ex_iff)
  from assms have fresh: "allocated s \<notin> set (farms s)"
    by (auto simp: names_unique_def)
  have m: "map (\<lambda>x. clean_name (if x = allocated s then f else heap s x)) (farms s) =
      map (\<lambda>x. clean_name (heap s x)) (farms s)" for f
    using fresh by (intro map_cong) auto
  have st: "lower (strip (strip n)) = lower (strip n)"
    by (simp add: strip_strip)
  show ?thesis
    using False assms new fresh
    apply (simp add: addfarm_def Let_def names_unique_def m)
    apply (auto simp: clean_name_def st less_Suc_eq)
    done
qed

lemma names_unique_step: "names_unique s \<Longrightarrow> names_unique (step ev s)"
proof (cases ev)
  case (RemoveFarm e n)
  assume "names_unique s"
  then show ?thesis
    unfolding RemoveFarm by (simp add: names_unique_removefarm)
next
  case (AddFarm e n crd out rt rg)
  assume "names_unique s"
  then show ?thesis
    unfolding AddFarm by (simp add: names_unique_addfarm)
qed (auto intro: names_unique_same [rotated])

lemma names_unique_run: "names_unique s \<Longrightarrow> names_unique (run evs s)"
  unfolding run_def using names_unique_step by (rule fold_preserves)

lemma names_unique_bot_of:
  "distinct (map clean_name fs) \<Longrightarrow> names_unique (bot_of d fs)"
  by (simp add: names_unique_def bot_of_def distinct_conv_nth)

lemma load_farm_name: "load_farm rd f = Inr g \<Longrightarrow> name g = name f"
  by (auto simp: load_farm_def split: sum.splits)

lemma load_each_names: "load_each rd fs = Inr gs \<Longrightarrow> map clean_name gs = map clean_name fs"
proof (induction fs arbitrary: gs)
  case Nil
  then show ?case by simp
next
  case (Cons f fs)
  from Cons.prems obtain g gs' where g: "load_farm rd f = Inr g" "load_each rd fs = Inr gs'"
      "gs = g # gs'"
    by (auto split: sum.splits)
  from g(2) have "map clean_name gs' = map clean_name fs"
    by (rule Cons.IH)
  moreover have "clean_name g = clean_name f"
    using load_farm_name [OF g(1)] by (simp add: clean_name_def)
  ultimately show ?case
    using g(3) by simp
qed

lemma load_farms_names:
  assumes "load_farms rd file = Inr d"
  shows "map clean_name (case snap_farms d of None \<Rightarrow> [] | Some l \<Rightarrow> l) =
         map clean_name (file_farms file)"
proof (cases "file")
  case NoFile
  with assms show ?thesis
    by (auto simp: load_farms_def file_farms_def empty_snapshot_def)
next
  case NotJson
  with assms show ?thesis
    by (auto simp: load_farms_def file_farms_def empty_snapshot_def)
next
  case (BareList fs)
  with assms obtain gs where "load_each rd fs = Inr gs" "snap_farms d = Some gs"
    by (auto simp: load_farms_def split: sum.splits)
  with BareList load_each_names [of rd fs gs] show ?thesis
    by (simp add: file_farms_def)
next
  case (Envelope x)
  show ?thesis
  proof (cases "snap_farms x")
    case None
    with assms Envelope show ?thesis
      by (auto simp: load_farms_def file_farms_def)
  next
    case (Some fs)
    with assms Envelope obtain gs where "load_each rd fs = Inr gs" "snap_farms d = Some gs"
      by (auto simp: load_farms_def split: sum.splits)
    with Envelope Some load_each_names [of rd fs gs] show ?thesis
      by (simp add: file_farms_def)
  qed
qed

lemma names_unique_initial_bot:
  assumes "initial_bot e file = Inr s" and "distinct (map clean_name (file_farms file))"
  shows "names_unique s"
proof -
  from assms(1) obtain d where d: "load_farms (fromisoformat e) file = Inr d"
    and s: "s = (if (case snap_farms d of None \<Rightarrow> [] | Some l \<Rightarrow> l) = []
                 then persist e (bot_of d default_farms)
                 else bot_of d (case snap_farms d of None \<Rightarrow> [] | Some l \<Rightarrow> l))"
    by (auto simp: initial_bot_def Let_def split: sum.splits)
  have u: "distinct (map clean_name (case snap_farms d of None \<Rightarrow> [] | Some l \<Rightarrow> l))"
    using load_farms_names [OF d] assms(2) by simp
  have df: "distinct (map clean_name default_farms)"
    by code_simp
  have "names_unique (bot_of d default_farms)"
    using df by (rule names_unique_bot_of)
  then have 1: "names_unique (persist e (bot_of d default_farms))"
    by (rule names_unique_same [rotated]) simp
  have 2: "names_unique (bot_of d (case snap_farms d of None \<Rightarrow> [] | Some l \<Rightarrow> l))"
    using u by (rule names_unique_bot_of)
  show ?thesis
    unfolding s using 1 2 by simp
qed

section \<open>Removal and the timers\<close>

lemma removefarm_removes:
  assumes "x \<in> set (farms s)" and "clean_name (heap s x) = lower (strip n)"
  shows "x \<notin> set (farms (removefarm e n s))"
proof (cases "filter (\<lambda>r. clean_name (heap s r) = lower (strip n)) (farms s)")
  case Nil
  with assms show ?thesis
    by (simp add: filter_empty_conv)
next
  case (Cons r rs)
  then show ?thesis
    using assms(2) by (simp add: removefarm_def Let_def)
qed

lemma distinct_clean_names_first:
  assumes "distinct (map (\<lambda>x. clean_name (heap s x)) (farms s))"
    and "filter (\<lambda>r. clean_name (heap s r) = c) (farms s) = r # rs"
    and "x \<in> set (farms s)" and "clean_name (heap s x) = c"
  shows "x = r"
proof -
  have "r \<in> set (filter (\<lambda>r. clean_name (heap s r) = c) (farms s))"
    using assms(2) by simp
  then have r: "r \<in> set (farms s)" "clean_name (heap s r) = c"
    by simp_all
  from assms(1) have "inj_on (\<lambda>x. clean_name (heap s x)) (set (farms s))"
    by (simp add: distinct_map)
  then show ?thesis
    using r assms(3,4) by (simp add: inj_on_def)
qed

lemma removefarm_cancels_all:
  assumes "scheduler_ok s"
    and "distinct (map (\<lambda>x. clean_name (heap s x)) (farms s))"
    and "x \<in> set (farms s)" and "clean_name (heap s x) = lower (strip n)"
  shows "armed_timers (removefarm e n s) (name (heap s x)) = 0"
proof (cases "filter (\<lambda>r. clean_name (heap s r) = lower (strip n)) (farms s)")
  case Nil
  with assms(3,4) show ?thesis
    by (simp add: filter_empty_conv)
next
  case (Cons r rs)
  have "x = r"
    using assms(2) Cons assms(3,4) by (rule distinct_clean_names_first)
  with removefarm_cancels [OF assms(1) Cons] show ?thesis
    by simp
qed

text \<open>
  C1. In every state the bot reaches from its start by messages of the feed, runs and
  expiries of tasks, commands and restarts of the connection, at most one task with a
  given key is armed. \<open>schedule_task_for_farm\<close> leaves exactly the new readiness task
  armed under the farm's name (none when \<open>next_ready\<close> is unset), and the handler of a
  start line leaves exactly the new failsafe armed. \<open>removefarm\<close> leaves no task armed
  under the name of the first farm that matches its argument; and when the names in the
  snapshot file are distinct after stripping and lower-casing (the name is a unique key
  in this sense, and \<open>addfarm\<close> keeps it one), every farm that matches the argument
  leaves the registry and no task stays armed under its name. (From a file in which two
  names collide, \<open>removefarm\<close> removes every matching farm and cancels the task of the
  first only: \<open>removefarm_colliding_names\<close>.)
\<close>

theorem one_armed_timer_per_name:
  assumes "initial_bot e0 file = Inr s0" and "s = run evs s0"
  shows "armed_timers s nm \<le> 1 \<and>
         filter (armed (name (heap s r))) (tasks (schedule_task_for_farm r s)) =
           (if truthy (py_get (next_ready (heap s r)))
            then [\<lparr>task_kind = NotifyTask, task_key = name (heap s r), task_farm = r, task_state = Created\<rparr>]
            else []) \<and>
         filter (armed (name (heap s r))) (tasks (handle_start e t u c r s)) =
           [\<lparr>task_kind = FailsafeTask (bot_channel e), task_key = name (heap s r), task_farm = r,
             task_state = Created\<rparr>] \<and>
         (case filter (\<lambda>x. clean_name (heap s x) = lower (strip n)) (farms s) of
            [] \<Rightarrow> tasks (removefarm e n s) = tasks s
          | x # xs \<Rightarrow> armed_timers (removefarm e n s) (name (heap s x)) = 0) \<and>
         (distinct (map clean_name (file_farms file)) \<longrightarrow>
            (\<forall>x \<in> set (farms s). clean_name (heap s x) = lower (strip n) \<longrightarrow>
               x \<notin> set (farms (removefarm e n s)) \<and>
               armed_timers (removefarm e n s) (name (heap s x)) = 0))"
proof -
  have "scheduler_ok s0"
    using assms(1) by (rule scheduler_ok_initial_bot)
  then have ok: "scheduler_ok s"
    unfolding assms(2) by (rule scheduler_ok_run)
  have 1: "armed_timers s nm \<le> 1"
    using ok by (rule armed_at_most_one)
  have 2: "filter (armed (name (heap s r))) (tasks (schedule_task_for_farm r s)) =
           (if truthy (py_get (next_ready (heap s r)))
            then [\<lparr>task_kind = NotifyTask, task_key = name (heap s r), task_farm = r, task_state = Created\<rparr>]
            else [])"
    using schedule_task_for_farm_replaces [OF ok, of r] schedule_task_for_farm_clears [OF ok, of r]
    by (cases "truthy (py_get (next_ready (heap s r)))") simp_all
  have 3: "filter (armed (name (heap s r))) (tasks (handle_start e t u c r s)) =
           [\<lparr>task_kind = FailsafeTask (bot_channel e), task_key = name (heap s r), task_farm = r,
             task_state = Created\<rparr>]"
    using ok by (rule handle_start_replaces)
  have 4: "case filter (\<lambda>x. clean_name (heap s x) = lower (strip n)) (farms s) of
            [] \<Rightarrow> tasks (removefarm e n s) = tasks s
          | x # xs \<Rightarrow> armed_timers (removefarm e n s) (name (heap s x)) = 0"
  proof (cases "filter (\<lambda>x. clean_name (heap s x) = lower (strip n)) (farms s)")
    case Nil
    then show ?thesis
      by (simp add: removefarm_def)
  next
    case (Cons x xs)
    with removefarm_cancels [OF ok Cons] show ?thesis
      by simp
  qed
  have 5: "distinct (map clean_name (file_farms file)) \<longrightarrow>
            (\<forall>x \<in> set (farms s). clean_name (heap s x) = lower (strip n) \<longrightarrow>
               x \<notin> set (farms (removefarm e n s)) \<and>
               armed_timers (removefarm e n s) (name (heap s x)) = 0)"
  proof (intro impI ballI conjI)
    fix x
    assume "distinct (map clean_name (file_farms file))"
      and x: "x \<in> set (farms s)" "clean_name (heap s x) = lower (strip n)"
    with assms(1) have "names_unique s0"
      by (simp add: names_unique_initial_bot)
    then have "names_unique s"
      unfolding assms(2) by (rule names_unique_run)
    then have d: "distinct (map (\<lambda>x. clean_name (heap s x)) (farms s))"
      by (simp add: names_unique_def)
    from x show "x \<notin> set (farms (removefarm e n s))"
      by (rule removefarm_removes)
    from ok d x show "armed_timers (removefarm e n s) (name (heap s x)) = 0"
      by (rule removefarm_cancels_all)
  qed
  from 1 2 3 4 5 show ?thesis
    by blast
qed

theorem one_armed_timer_per_name_witness:
  "armed_timers (run example_events example_bot) ''Wheat Farm'' \<le> 1 \<and>
   map task_state (tasks (run example_events example_bot)) = [Cancelled, Cancelled, Created] \<and>
   map task_key (tasks (run example_events example_bot)) = [''Wheat Farm'', ''Wheat Farm'', ''Wheat Farm''] \<and>
   distinct (map clean_name (file_farms (Envelope example_snapshot))) \<and>
   0 \<in> set (farms (run example_events example_bot)) \<and>
   0 \<notin> set (farms (removefarm (example_env (noon + seconds 1800)) ''Wheat Farm''
     (run example_events example_bot))) \<and>
   armed_timers (removefarm (example_env (noon + seconds 1800)) ''Wheat Farm'' (run example_events example_bot))
     ''Wheat Farm'' = 0"
proof -
  have s: "run example_events example_bot = run example_events example_bot"
    by (rule refl)
  have d: "distinct (map clean_name (file_farms (Envelope example_snapshot)))"
    by code_simp
  have m: "0 \<in> set (farms (run example_events example_bot))"
      "clean_name (heap (run example_events example_bot) 0) = lower (strip ''Wheat Farm'')"
    by code_simp+
  have n: "name (heap (run example_events example_bot) 0) = ''Wheat Farm''"
    by code_simp
  have t: "map task_state (tasks (run example_events example_bot)) = [Cancelled, Cancelled, Created]"
      "map task_key (tasks (run example_events example_bot)) = [''Wheat Farm'', ''Wheat Farm'', ''Wheat Farm'']"
    by code_simp+
  note o = one_armed_timer_per_name [OF example_bot_loaded s, where nm = "''Wheat Farm''"
      and n = "''Wheat Farm''" and e = "example_env (noon + seconds 1800)"]
  from o have 1: "armed_timers (run example_events example_bot) ''Wheat Farm'' \<le> 1"
    by blast
  from o d m have "0 \<notin> set (farms (removefarm (example_env (noon + seconds 1800)) ''Wheat Farm''
        (run example_events example_bot))) \<and>
      armed_timers (removefarm (example_env (noon + seconds 1800)) ''Wheat Farm''
        (run example_events example_bot)) (name (heap (run example_events example_bot) 0)) = 0"
    by blast
  with n 1 t d m(1) show ?thesis
    by simp
qed

text \<open>
  The distinctness is needed. From \<open>colliding_snapshot\<close>, whose two names differ in case
  only (a file \<open>load_farms\<close> accepts), \<open>removefarm\<close> with the first name empties the registry and cancels the readiness
  task of the first farm; the task of the second still sleeps, and when it wakes it sends
  the ready notice of a farm that is no longer registered.
\<close>

lemma removefarm_colliding_names:
  "\<not> isl (initial_bot (example_env (noon - 10)) (Envelope colliding_snapshot)) \<and>
   map (\<lambda>x. name (heap colliding_start x)) (farms colliding_start) = [''Wheat Farm'', ''wheat farm''] \<and>
   farms colliding_bot = [] \<and>
   armed_timers colliding_bot ''Wheat Farm'' = 0 \<and>
   armed_timers colliding_bot ''wheat farm'' = 1 \<and>
   filter is_ping (new_outputs colliding_bot (task_wake (example_env noon) 1 colliding_bot)) =
     [ReadyPing ''wheat farm'']"
  by code_simp

section \<open>Restart: the farms of the snapshot are scheduled again\<close>

lemma loop_frame_refl: "loop_frame nm r s s"
  by (simp add: loop_frame_def)

lemma loop_frame_trans:
  assumes "loop_frame nm r s s1" and "loop_frame nm r s1 s2"
  shows "loop_frame nm r s s2"
proof -
  from assms obtain ws1 ws2 where w1: "outputs s1 = outputs s @ ws1" "filter is_ping ws1 = []"
    and w2: "outputs s2 = outputs s1 @ ws2" "filter is_ping ws2 = []"
    unfolding loop_frame_def by blast
  have o: "\<exists>ws. outputs s2 = outputs s @ ws \<and> filter is_ping ws = []"
    using w1 w2 by simp
  have t: "tasks s2 ! i = tasks s ! i" if "i < length (tasks s)" and "task_key (tasks s ! i) = nm" for i
  proof -
    from assms(1) that have a: "tasks s1 ! i = tasks s ! i" and l: "i < length (tasks s1)"
      unfolding loop_frame_def by auto
    with assms(2) that(2) have "tasks s2 ! i = tasks s1 ! i"
      unfolding loop_frame_def by auto
    with a show ?thesis
      by simp
  qed
  have rest: "heap s2 r = heap s r" "\<forall>y. name (heap s2 y) = name (heap s y)" "farms s2 = farms s"
      "scheduled_tasks s2 nm = scheduled_tasks s nm" "length (tasks s) \<le> length (tasks s2)"
    using assms unfolding loop_frame_def by auto
  show ?thesis
    unfolding loop_frame_def using rest t o by blast
qed

lemma name_parse_next_ready [simp]: "name (parse_next_ready e f) = name f"
  by (simp add: parse_next_ready_def split: pyval.splits)

lemma schedule_task_for_farm_frame:
  assumes ok: "scheduler_ok s" and nm: "name (heap s x) \<noteq> nm"
  shows "scheduled_tasks (schedule_task_for_farm x s) nm = scheduled_tasks s nm"
    and "i < length (tasks s) \<Longrightarrow> task_key (tasks s ! i) = nm \<Longrightarrow>
           tasks (schedule_task_for_farm x s) ! i = tasks s ! i"
    and "length (tasks s) \<le> length (tasks (schedule_task_for_farm x s))"
proof -
  let ?s1 = "case scheduled_tasks s (name (heap s x)) of None \<Rightarrow> s | Some old \<Rightarrow> cancel_task old s"
  have sc1: "scheduled_tasks ?s1 = scheduled_tasks s" and l1: "length (tasks ?s1) = length (tasks s)"
    and h1: "heap ?s1 = heap s"
    by (simp_all split: option.splits)
  have t1: "tasks ?s1 ! i = tasks s ! i" if "i < length (tasks s)" and "task_key (tasks s ! i) = nm" for i
  proof (cases "scheduled_tasks s (name (heap s x))")
    case None
    then show ?thesis
      by simp
  next
    case (Some old)
    with ok have "task_key (tasks s ! old) = name (heap s x)"
      unfolding scheduler_ok_def by blast
    with that nm have "old \<noteq> i"
      by auto
    with Some show ?thesis
      by (simp add: tasks_cancel_task)
  qed
  have cases: "schedule_task_for_farm x s = ?s1 \<or>
      schedule_task_for_farm x s = create_task NotifyTask (name (heap s x)) x ?s1"
    by (simp add: schedule_task_for_farm_def Let_def)
  show "scheduled_tasks (schedule_task_for_farm x s) nm = scheduled_tasks s nm"
    using cases sc1 nm by (auto simp: tasks_create_task)
  show "length (tasks s) \<le> length (tasks (schedule_task_for_farm x s))"
    using cases l1 by (auto simp: tasks_create_task)
  show "tasks (schedule_task_for_farm x s) ! i = tasks s ! i"
    if "i < length (tasks s)" and "task_key (tasks s ! i) = nm"
    using cases t1 [OF that] that(1) l1 by (auto simp: tasks_create_task nth_append)
qed

lemma reschedule_farm_cases:
  "reschedule_farm e x s = update_farm x (parse_next_ready e) s \<or>
   (\<exists>t. py_get (next_ready (parse_next_ready e (heap s x))) = PDatetime t \<and>
      (instant (as_utc t) \<le> now e \<and>
         reschedule_farm e x s =
           persist e (update_farm x (\<lambda>f. f\<lparr>status := Some (PStr STATUS_READY), next_ready := Some PNone\<rparr>)
             (update_farm x (\<lambda>f. f\<lparr>next_ready := Some (PDatetime (as_utc t))\<rparr>)
               (update_farm x (parse_next_ready e) s))) \<or>
       now e < instant (as_utc t) \<and>
         reschedule_farm e x s =
           schedule_task_for_farm x
             (update_farm x (\<lambda>f. f\<lparr>next_ready := Some (PDatetime (as_utc t))\<rparr>)
               (update_farm x (parse_next_ready e) s))))"
  by (cases "py_get (next_ready (parse_next_ready e (heap s x)))")
     (auto simp: reschedule_farm_def Let_def)

lemma reschedule_farm_frame:
  assumes ok: "scheduler_ok s" and x: "x \<noteq> r" and nm: "name (heap s x) \<noteq> nm"
  shows "loop_frame nm r s (reschedule_farm e x s)"
proof -
  let ?s1 = "update_farm x (parse_next_ready e) s"
  have f1: "loop_frame nm r s ?s1"
    using x by (simp add: loop_frame_def)
  from reschedule_farm_cases [of e x s] show ?thesis
  proof (elim disjE exE conjE)
    assume "reschedule_farm e x s = ?s1"
    with f1 show ?thesis
      by simp
  next
    fix t
    assume "reschedule_farm e x s =
           persist e (update_farm x (\<lambda>f. f\<lparr>status := Some (PStr STATUS_READY), next_ready := Some PNone\<rparr>)
             (update_farm x (\<lambda>f. f\<lparr>next_ready := Some (PDatetime (as_utc t))\<rparr>) ?s1))"
    then show ?thesis
      using x by (simp add: loop_frame_def)
  next
    fix t
    let ?s2 = "update_farm x (\<lambda>f. f\<lparr>next_ready := Some (PDatetime (as_utc t))\<rparr>) ?s1"
    assume r: "reschedule_farm e x s = schedule_task_for_farm x ?s2"
    have ok2: "scheduler_ok ?s2"
      using ok by simp
    have nm2: "name (heap ?s2 x) \<noteq> nm"
      using nm by simp
    note fr = schedule_task_for_farm_frame [OF ok2 nm2]
    show ?thesis
      unfolding r loop_frame_def
      using x fr(1) fr(2) fr(3) by simp
  qed
qed

lemma fold_reschedule_frame:
  assumes "scheduler_ok s" and "r \<notin> set zs" and "\<forall>z \<in> set zs. name (heap s z) \<noteq> nm"
  shows "loop_frame nm r s (fold (reschedule_farm e) zs s) \<and>
         scheduler_ok (fold (reschedule_farm e) zs s)"
  using assms
proof (induction zs arbitrary: s)
  case Nil
  then show ?case
    by (simp add: loop_frame_refl)
next
  case (Cons z zs)
  let ?s1 = "reschedule_farm e z s"
  have f1: "loop_frame nm r s ?s1"
    using Cons.prems by (intro reschedule_farm_frame) auto
  have ok1: "scheduler_ok ?s1"
    using Cons.prems(1) by (rule scheduler_ok_reschedule_farm)
  have names: "name (heap ?s1 y) = name (heap s y)" for y
    using f1 unfolding loop_frame_def by blast
  have "loop_frame nm r ?s1 (fold (reschedule_farm e) zs ?s1) \<and>
      scheduler_ok (fold (reschedule_farm e) zs ?s1)"
    using ok1 Cons.prems(2,3) by (intro Cons.IH) (simp_all add: names)
  with f1 show ?case
    using loop_frame_trans by auto
qed

lemma as_utc_aware: "\<exists>z. as_utc t = Datetime (instant t) (Some z)"
  by (cases t) (simp add: as_utc_def split: option.splits)

lemma instant_as_utc [simp]: "instant (as_utc t) = instant t"
  by (cases t) (simp add: as_utc_def split: option.splits)

lemma parse_next_ready_datetime:
  "next_ready f = Some (PDatetime t) \<Longrightarrow> parse_next_ready e f = f"
  by (simp add: parse_next_ready_def py_get_def)

lemma update_farm_id: "g (heap s r) = heap s r \<Longrightarrow> update_farm r g s = s"
  by (simp add: update_farm_def)

lemma reschedule_farm_datetime:
  assumes "next_ready (heap s r) = Some (PDatetime t)"
  shows "reschedule_farm e r s =
     (let s2 = update_farm r (\<lambda>f. f\<lparr>next_ready := Some (PDatetime (as_utc t))\<rparr>) s in
      if instant t \<le> now e
      then persist e (update_farm r
             (\<lambda>f. f\<lparr>status := Some (PStr STATUS_READY), next_ready := Some PNone\<rparr>) s2)
      else schedule_task_for_farm r s2)"
proof -
  have "update_farm r (parse_next_ready e) s = s"
    using assms by (intro update_farm_id parse_next_ready_datetime)
  then show ?thesis
    using assms by (simp add: reschedule_farm_def Let_def py_get_def)
qed

lemma restart_split:
  assumes ok: "scheduler_ok s"
    and names: "distinct (map (\<lambda>x. name (heap s x)) (farms s))"
    and r: "r \<in> set (farms s)"
  obtains sa where "loop_frame (name (heap s r)) r s sa" and "scheduler_ok sa"
    and "loop_frame (name (heap s r)) r (reschedule_farm e r sa) (schedule_existing_farms e s)"
proof -
  let ?nm = "name (heap s r)"
  let ?f = "reschedule_farm e"
  from r obtain xs ys where sp: "farms s = xs @ r # ys"
    by (auto dest: split_list)
  have d: "distinct (map (\<lambda>x. name (heap s x)) xs @ ?nm # map (\<lambda>x. name (heap s x)) ys)"
    using names by (simp add: sp)
  have rx: "r \<notin> set xs" and ry: "r \<notin> set ys"
    using d by auto
  have inx: "name (heap s z) \<in> (\<lambda>x. name (heap s x)) ` set xs" if "z \<in> set xs" for z
    using that by blast
  have iny: "name (heap s z) \<in> (\<lambda>x. name (heap s x)) ` set ys" if "z \<in> set ys" for z
    using that by blast
  have mx: "?nm \<notin> (\<lambda>x. name (heap s x)) ` set xs" and my: "?nm \<notin> (\<lambda>x. name (heap s x)) ` set ys"
    using d by simp_all
  have nx: "\<forall>z \<in> set xs. name (heap s z) \<noteq> ?nm"
    using inx mx by metis
  have ny: "\<forall>z \<in> set ys. name (heap s z) \<noteq> ?nm"
    using iny my by metis
  let ?sa = "fold ?f xs s"
  let ?sb = "?f r ?sa"
  have a: "loop_frame ?nm r s ?sa" and oka: "scheduler_ok ?sa"
    using fold_reschedule_frame [OF ok rx nx] by blast+
  have okb: "scheduler_ok ?sb"
    using oka by (rule scheduler_ok_reschedule_farm)
  have na: "name (heap ?sa y) = name (heap s y)" for y
    using a unfolding loop_frame_def by blast
  have nb: "name (heap ?sb y) = name (heap s y)" for y
  proof -
    have "name (heap ?sb y) = name (heap ?sa y)"
      using reschedule_farm_cases [of e r ?sa]
      by (elim disjE exE conjE) (simp_all)
    with na show ?thesis
      by simp
  qed
  have nyb: "\<forall>z \<in> set ys. name (heap ?sb z) \<noteq> ?nm"
    using ny by (simp add: nb)
  have b: "loop_frame ?nm r ?sb (fold ?f ys ?sb)"
    using fold_reschedule_frame [OF okb ry nyb] by blast
  have "schedule_existing_farms e s = fold ?f ys ?sb"
    by (simp add: schedule_existing_farms_def sp)
  with a oka b that show thesis
    by simp
qed

text \<open>
  C7. \<open>on_ready\<close> walks the registry once (\<open>schedule_existing_farms\<close>). For a farm of
  the registry whose \<open>next_ready\<close> is a \<open>datetime\<close>, in a registry whose names differ and a
  scheduler in order (as it is in every state the bot reaches): if \<open>next_ready\<close> is not
  after the clock, the farm is \<open>STATUS_READY\<close> with \<open>next_ready\<close> cleared at the end of the
  walk, a save made during the walk holds the farm in that form, the entry of the farm's
  name in \<open>_scheduled_tasks\<close> is as before, and the walk sends no notification; if
  \<open>next_ready\<close> is after the clock, status and instant of \<open>next_ready\<close> are as before (a
  naive value is tagged as UTC), \<open>_scheduled_tasks\<close> holds a new readiness task for the
  farm, and that task, once it runs before \<open>next_ready\<close>, sleeps until \<open>next_ready\<close>.
\<close>

theorem restart_reschedules:
  assumes ok: "scheduler_ok s"
    and names: "distinct (map (\<lambda>x. name (heap s x)) (farms s))"
    and r: "r \<in> set (farms s)"
    and nr: "next_ready (heap s r) = Some (PDatetime t)"
  shows "let s' = schedule_existing_farms e s; nm = name (heap s r) in
     filter is_ping (new_outputs s s') = [] \<and>
     (if instant t \<le> now e then
        status (heap s' r) = Some (PStr STATUS_READY) \<and> next_ready (heap s' r) = Some PNone \<and>
        (\<exists>doc fs. Saved doc \<in> set (new_outputs s s') \<and> snap_farms doc = Some fs \<and>
           save_farm (isoformat e) (heap s' r) \<in> set fs) \<and>
        scheduled_tasks s' nm = scheduled_tasks s nm
      else
        status (heap s' r) = status (heap s r) \<and>
        next_ready (heap s' r) = Some (PDatetime (as_utc t)) \<and>
        (\<exists>i. scheduled_tasks s' nm = Some i \<and> i < length (tasks s') \<and>
           tasks s' ! i = \<lparr>task_kind = NotifyTask, task_key = nm, task_farm = r, task_state = Created\<rparr> \<and>
           (\<forall>e1. now e1 < instant t \<longrightarrow>
              task_state (tasks (task_start e1 i s') ! i) = Sleeping (instant t))))"
proof -
  define nm where "nm = name (heap s r)"
  define s' where "s' = schedule_existing_farms e s"
  obtain sa where a: "loop_frame nm r s sa" and oka: "scheduler_ok sa"
    and b: "loop_frame nm r (reschedule_farm e r sa) s'"
    unfolding nm_def s'_def using ok names r by (rule restart_split)
  define sb where "sb = reschedule_farm e r sa"
  define s2 where "s2 = update_farm r (\<lambda>f. f\<lparr>next_ready := Some (PDatetime (as_utc t))\<rparr>) sa"
  have ha: "heap sa r = heap s r" and fa: "farms sa = farms s"
    and sca: "scheduled_tasks sa nm = scheduled_tasks s nm"
    using a unfolding loop_frame_def by blast+
  obtain w1 where w1: "outputs sa = outputs s @ w1" "filter is_ping w1 = []"
    using a unfolding loop_frame_def by blast
  have hb: "heap s' r = heap sb r" and scb: "scheduled_tasks s' nm = scheduled_tasks sb nm"
    and lb: "length (tasks sb) \<le> length (tasks s')"
    and tb: "\<And>i. i < length (tasks sb) \<Longrightarrow> task_key (tasks sb ! i) = nm \<Longrightarrow> tasks s' ! i = tasks sb ! i"
    using b unfolding loop_frame_def sb_def by blast+
  obtain w3 where w3: "outputs s' = outputs sb @ w3" "filter is_ping w3 = []"
    using b unfolding loop_frame_def sb_def by blast
  have nra: "next_ready (heap sa r) = Some (PDatetime t)"
    using nr ha by simp
  have sbeq: "sb = (if instant t \<le> now e
      then persist e (update_farm r
             (\<lambda>f. f\<lparr>status := Some (PStr STATUS_READY), next_ready := Some PNone\<rparr>) s2)
      else schedule_task_for_farm r s2)"
    unfolding sb_def s2_def using reschedule_farm_datetime [OF nra, of e] by (simp add: Let_def)
  have ob: "\<exists>w2. outputs sb = outputs sa @ w2 \<and> filter is_ping w2 = []"
    by (simp add: sbeq s2_def)
  then obtain w2 where w2: "outputs sb = outputs sa @ w2" "filter is_ping w2 = []"
    by blast
  have new: "new_outputs s s' = w1 @ w2 @ w3"
    using w1 w2 w3 by (simp add: new_outputs_def)
  have pings: "filter is_ping (new_outputs s s') = []"
    using w1 w2 w3 by (simp add: new)
  show ?thesis
  proof (cases "instant t \<le> now e")
    case True
    let ?s3 = "update_farm r (\<lambda>f. f\<lparr>status := Some (PStr STATUS_READY), next_ready := Some PNone\<rparr>) s2"
    have sb3: "sb = persist e ?s3"
      using True by (simp add: sbeq)
    have h: "heap s' r = (heap s r)\<lparr>next_ready := Some PNone, status := Some (PStr STATUS_READY)\<rparr>"
      by (simp add: hb sb3 s2_def ha)
    have w2eq: "w2 = [Saved (save_farms (isoformat e) (data_of ?s3))]"
      using w2(1) by (simp add: sb3 s2_def)
    have mem: "Saved (save_farms (isoformat e) (data_of ?s3)) \<in> set (new_outputs s s')"
      by (simp add: new w2eq)
    have h3: "heap ?s3 r = heap s' r"
      by (simp add: h s2_def ha)
    have "r \<in> set (farms ?s3)"
      using r by (simp add: s2_def fa)
    then have "save_farm (isoformat e) (heap ?s3 r) \<in> set (map (save_farm (isoformat e)) (map (heap ?s3) (farms ?s3)))"
      unfolding set_map by blast
    then have "save_farm (isoformat e) (heap s' r) \<in> set (map (save_farm (isoformat e)) (map (heap ?s3) (farms ?s3)))"
      by (simp only: h3)
    moreover have "snap_farms (save_farms (isoformat e) (data_of ?s3)) =
        Some (map (save_farm (isoformat e)) (map (heap ?s3) (farms ?s3)))"
      by simp
    ultimately have ex: "\<exists>doc fs. Saved doc \<in> set (new_outputs s s') \<and> snap_farms doc = Some fs \<and>
           save_farm (isoformat e) (heap s' r) \<in> set fs"
      using mem by blast
    have sc: "scheduled_tasks s' nm = scheduled_tasks s nm"
      by (simp add: scb sb3 s2_def sca)
    from True pings h ex sc show ?thesis
      unfolding Let_def s'_def [symmetric] nm_def [symmetric] by simp
  next
    case False
    have sb3: "sb = schedule_task_for_farm r s2"
      using False by (simp add: sbeq)
    have tr: "truthy (py_get (next_ready (heap s2 r)))"
      by (simp add: s2_def py_get_def)
    have n2: "name (heap s2 r) = nm"
      by (simp add: s2_def ha nm_def)
    note sch = schedule_task_for_farm_truthy [OF tr, unfolded n2, folded sb3]
    define i where "i = length (tasks s2)"
    have ti: "tasks sb ! i = \<lparr>task_kind = NotifyTask, task_key = nm, task_farm = r, task_state = Created\<rparr>"
      and li: "i < length (tasks sb)" and si: "scheduled_tasks sb nm = Some i"
      using sch by (simp_all add: i_def)
    have ti': "tasks s' ! i = \<lparr>task_kind = NotifyTask, task_key = nm, task_farm = r, task_state = Created\<rparr>"
      using tb [OF li] ti by simp
    have li': "i < length (tasks s')"
      using li lb by simp
    have h: "heap s' r = (heap s r)\<lparr>next_ready := Some (PDatetime (as_utc t))\<rparr>"
      by (simp add: hb sb3 s2_def ha)
    obtain z where z: "as_utc t = Datetime (instant t) (Some z)"
      using as_utc_aware by blast
    have st: "task_state (tasks (task_start e1 i s') ! i) = Sleeping (instant t)" if "now e1 < instant t" for e1
    proof -
      have "task_start e1 i s' = set_task_state i (Sleeping (instant t)) s'"
        using li' ti' _ that by (rule task_start_notify) (simp add: h z)
      then show ?thesis
        using li' by (simp add: set_task_state_def)
    qed
    have ex: "\<exists>i. scheduled_tasks s' nm = Some i \<and> i < length (tasks s') \<and>
           tasks s' ! i = \<lparr>task_kind = NotifyTask, task_key = nm, task_farm = r, task_state = Created\<rparr> \<and>
           (\<forall>e1. now e1 < instant t \<longrightarrow>
              task_state (tasks (task_start e1 i s') ! i) = Sleeping (instant t))"
      using si scb li' ti' st by auto
    from False pings h ex show ?thesis
      unfolding Let_def s'_def [symmetric] nm_def [symmetric] by simp
  qed
qed

theorem restart_reschedules_witness:
  "status (heap (schedule_existing_farms (example_env (noon + 10)) example_bot) 0) = Some (PStr STATUS_READY) \<and>
   next_ready (heap (schedule_existing_farms (example_env (noon + 10)) example_bot) 0) = Some PNone \<and>
   filter is_ping (new_outputs example_bot (schedule_existing_farms (example_env (noon + 10)) example_bot)) = [] \<and>
   length (new_outputs example_bot (schedule_existing_farms (example_env (noon + 10)) example_bot)) = 1 \<and>
   tasks (schedule_existing_farms (example_env (noon + 10)) example_bot) = [] \<and>
   status (heap (schedule_existing_farms (example_env (noon - 10)) example_bot) 0) = Some (PStr STATUS_FARMING) \<and>
   next_ready (heap (schedule_existing_farms (example_env (noon - 10)) example_bot) 0) =
     Some (PDatetime (Datetime noon (Some 0))) \<and>
   tasks (schedule_existing_farms (example_env (noon - 10)) example_bot) =
     [\<lparr>task_kind = NotifyTask, task_key = ''Wheat Farm'', task_farm = 0, task_state = Created\<rparr>] \<and>
   task_state (tasks (task_start (example_env (noon - 9)) 0
       (schedule_existing_farms (example_env (noon - 10)) example_bot)) ! 0) = Sleeping noon"
proof -
  have ok: "scheduler_ok example_bot"
    using example_bot_loaded by (rule scheduler_ok_initial_bot)
  have names: "distinct (map (\<lambda>x. name (heap example_bot x)) (farms example_bot))"
    by code_simp
  have r: "0 \<in> set (farms example_bot)"
    by code_simp
  have nr: "next_ready (heap example_bot 0) = Some (PDatetime (Datetime noon (Some 0)))"
    by code_simp
  have st: "status (heap example_bot 0) = Some (PStr STATUS_FARMING)"
    by code_simp
  have u: "as_utc (Datetime noon (Some 0)) = Datetime noon (Some 0)"
    by (simp add: as_utc_def)
  have past: "instant (Datetime noon (Some 0)) \<le> now (example_env (noon + 10))"
    and future: "\<not> instant (Datetime noon (Some 0)) \<le> now (example_env (noon - 10))"
    by (simp_all add: example_env_def)
  note p = restart_reschedules [OF ok names r nr, of "example_env (noon + 10)", unfolded Let_def if_P [OF past]]
  note f = restart_reschedules [OF ok names r nr, of "example_env (noon - 10)", unfolded Let_def if_not_P [OF future]]
  have c: "length (new_outputs example_bot (schedule_existing_farms (example_env (noon + 10)) example_bot)) = 1"
      "tasks (schedule_existing_farms (example_env (noon + 10)) example_bot) = []"
      "tasks (schedule_existing_farms (example_env (noon - 10)) example_bot) =
        [\<lparr>task_kind = NotifyTask, task_key = ''Wheat Farm'', task_farm = 0, task_state = Created\<rparr>]"
      "task_state (tasks (task_start (example_env (noon - 9)) 0
         (schedule_existing_farms (example_env (noon - 10)) example_bot)) ! 0) = Sleeping noon"
    by code_simp+
  from p f c show ?thesis
    by (simp add: st u)
qed

end
